theory Spec2Isabelle
  imports Main
begin

section \<open>Data model\<close>

text \<open>
  Go strings are byte sequences, so they are modelled as \<open>string\<close> (a list of 8-bit
  characters); text outside ASCII appears as its UTF-8 bytes. Go's \<open>int\<close> is only
  compared and incremented by one here, so it is modelled as \<open>int\<close>. An \<open>error\<close>
  value is modelled by its message; \<open>nil\<close> is \<open>None\<close>, and a \<open>(value, error)\<close> pair
  is a sum with \<open>Inl\<close> for the error.
\<close>

type_synonym error = string

text \<open>\<open>twitter.Tweet\<close>; \<open>CreatedAt\<close> is kept as Unix seconds.\<close>

record Tweet =
  ID :: string
  Text :: string
  AuthorID :: string
  CreatedAt :: int
  Username :: string

text \<open>\<open>ai.Analysis\<close>.\<close>

record Analysis =
  Score :: int
  Category :: string
  Sentiment :: string
  Tickers :: "string list"
  Summary :: string
  KeyPoints :: "string list"
  Urgency :: string
  Reasoning :: string

text \<open>
  The parts of \<open>config.Config\<close> the crawler reads. The field \<open>Username\<close> of
  \<open>config.Trader\<close> is called \<open>TraderUsername\<close>, since \<open>Tweet\<close> has a field of that
  name already.
\<close>

record AIConfig =
  Enabled :: bool
  MinScore :: int
  Model :: string

record Trader =
  TraderUsername :: string
  DisplayName :: string
  Priority :: string

record Keyword =
  Query :: string
  Name :: string

record Config =
  AI :: AIConfig
  Traders :: "Trader list"
  Keywords :: "Keyword list"

section \<open>The seen store (storage.go)\<close>

text \<open>
  \<open>SeenTweets\<close> holds a \<open>map[string]bool\<close> and the path of its file. The mutex is
  left out: every caller in the repository is sequential. The map is always allocated
  (\<open>NewSeenTweets\<close> makes it).
\<close>

record SeenTweets =
  tweets :: "string \<rightharpoonup> bool"
  filePath :: string

text \<open>
  \<open>Has\<close> returns \<open>st.tweets[tweetID]\<close>: the stored value, and Go's zero value \<open>false\<close> for
  a key that is absent.
\<close>

definition Has :: "SeenTweets \<Rightarrow> string \<Rightarrow> bool" where
  "Has st tweetID = (case tweets st tweetID of None \<Rightarrow> False | Some b \<Rightarrow> b)"

definition Add :: "SeenTweets \<Rightarrow> string \<Rightarrow> SeenTweets" where
  "Add st tweetID = st\<lparr>tweets := (tweets st)(tweetID \<mapsto> True)\<rparr>"

text \<open>
  The file system is a map from paths to nodes. A node that exists but cannot be read
  (a directory, a file without read permission) is \<open>Unreadable\<close>: \<open>os.Stat\<close> succeeds on it
  and \<open>os.ReadFile\<close> fails.
\<close>

datatype node = File string | Unreadable

type_synonym fs = "string \<rightharpoonup> node"

definition Stat :: "fs \<Rightarrow> string \<Rightarrow> error option" where
  "Stat disk path = (case disk path of None \<Rightarrow> Some ''no such file or directory'' | Some _ \<Rightarrow> None)"

definition ReadFile :: "fs \<Rightarrow> string \<Rightarrow> error + string" where
  "ReadFile disk path =
     (case disk path of
        None \<Rightarrow> Inl ''no such file or directory''
      | Some Unreadable \<Rightarrow> Inl ''permission denied''
      | Some (File data) \<Rightarrow> Inr data)"

text \<open>
  What the crawler does to the outside world is recorded as a list of calls, oldest first,
  each with its arguments and what it returned (\<open>SleepCall\<close> carries the milliseconds).
  Every collaborator answers as a function of the calls made so far, so that the same
  request may succeed at one time and fail at another.
\<close>

datatype event =
    GetUserTweetsCall string int "error + Tweet list"
  | SearchTweetsCall string int "error + Tweet list"
  | AnalyzeCall Tweet string "error + Analysis"
  | NotifySimpleCall Tweet string "error option"
  | NotifyTweetCall Tweet Analysis "error option"
  | SleepCall int
  | SaveCall "error option"

type_synonym history = "event list"

text \<open>
  The platform under \<open>storage.go\<close>: \<open>json.MarshalIndent\<close> and \<open>json.Unmarshal\<close> at the type
  \<open>map[string]bool\<close>, and whether an \<open>os.WriteFile\<close> fails. They are parameters of the
  model. \<open>Unmarshal\<close> gives the entries of the decoded JSON object.
\<close>

record sys =
  MarshalIndent :: "(string \<rightharpoonup> bool) \<Rightarrow> error + string"
  Unmarshal :: "string \<Rightarrow> error + (string \<rightharpoonup> bool)"
  WriteFile :: "history \<Rightarrow> string \<Rightarrow> string \<Rightarrow> error option"

text \<open>
  \<open>Save\<close> returns the error (or \<open>nil\<close>) and the file system after it. A write that fails
  leaves the file system as it was in the model.
\<close>

definition Save :: "sys \<Rightarrow> SeenTweets \<Rightarrow> history \<Rightarrow> fs \<Rightarrow> error option \<times> fs" where
  "Save os st h disk =
     (case MarshalIndent os (tweets st) of
        Inl err \<Rightarrow> (Some (''failed to marshal seen tweets: '' @ err), disk)
      | Inr data \<Rightarrow>
          (case WriteFile os h (filePath st) data of
             Some err \<Rightarrow> (Some (''failed to write seen tweets file: '' @ err), disk)
           | None \<Rightarrow> (None, disk(filePath st \<mapsto> File data))))"

text \<open>
  \<open>Load\<close> decodes into the map the store already has: \<open>json.Unmarshal\<close> keeps the entries
  of a map that is not \<open>nil\<close> and stores the decoded ones over them. The store that
  \<open>Load\<close> leaves behind when it fails is not modelled: its only caller drops it.
\<close>

definition Load :: "sys \<Rightarrow> SeenTweets \<Rightarrow> fs \<Rightarrow> error + SeenTweets" where
  "Load os st disk =
     (case ReadFile disk (filePath st) of
        Inl err \<Rightarrow> Inl (''failed to read seen tweets file: '' @ err)
      | Inr data \<Rightarrow>
          (case Unmarshal os data of
             Inl err \<Rightarrow> Inl (''failed to unmarshal seen tweets: '' @ err)
           | Inr m \<Rightarrow> Inr (st\<lparr>tweets := tweets st ++ m\<rparr>)))"

definition NewSeenTweets :: "sys \<Rightarrow> string \<Rightarrow> fs \<Rightarrow> error + SeenTweets" where
  "NewSeenTweets os path disk =
     (let st = \<lparr>tweets = Map.empty, filePath = path\<rparr>
      in case Stat disk path of
           None \<Rightarrow> (case Load os st disk of Inl err \<Rightarrow> Inl err | Inr st' \<Rightarrow> Inr st')
         | Some _ \<Rightarrow> Inr st)"

text \<open>
  The step of \<open>main\<close> that initialises the seen store: an error ends the process through
  \<open>log.Fatalf\<close>.
\<close>

datatype 'a startup = Fatal string | Proceed 'a

definition main_initSeenTweets :: "sys \<Rightarrow> string \<Rightarrow> fs \<Rightarrow> SeenTweets startup" where
  "main_initSeenTweets os seenTweetsPath disk =
     (case NewSeenTweets os seenTweetsPath disk of
        Inl err \<Rightarrow> Fatal (''Failed to initialize seen tweets: '' @ err)
      | Inr seenTweets \<Rightarrow> Proceed seenTweets)"

section \<open>Icons, colours and labels of a rich notification (slack.go)\<close>

definition getEmojiByUrgency :: "string \<Rightarrow> string" where
  "getEmojiByUrgency urgency =
     (if urgency = ''critical'' then [CHR 0xF0, CHR 0x9F, CHR 0x9A, CHR 0xA8]
      else if urgency = ''high'' then [CHR 0xE2, CHR 0x9A, CHR 0xA0, CHR 0xEF, CHR 0xB8, CHR 0x8F]
      else if urgency = ''normal'' then [CHR 0xF0, CHR 0x9F, CHR 0x92, CHR 0xA1]
      else if urgency = ''low'' then [CHR 0xE2, CHR 0x84, CHR 0xB9, CHR 0xEF, CHR 0xB8, CHR 0x8F]
      else [CHR 0xF0, CHR 0x9F, CHR 0x92, CHR 0xA1])"

definition getColorByUrgency :: "string \<Rightarrow> string" where
  "getColorByUrgency urgency =
     (if urgency = ''critical'' then ''#FF0000''
      else if urgency = ''high'' then ''#FF9900''
      else if urgency = ''normal'' then ''#36A64F''
      else if urgency = ''low'' then ''#808080''
      else ''#36A64F'')"

definition getSentimentEmoji :: "string \<Rightarrow> string" where
  "getSentimentEmoji sentiment =
     (if sentiment = ''bullish'' then
        [CHR 0xF0, CHR 0x9F, CHR 0x93, CHR 0x88, CHR 0x20, CHR 0xE5, CHR 0xBC, CHR 0xB7,
         CHR 0xE6, CHR 0xB0, CHR 0x97]
      else if sentiment = ''bearish'' then
        [CHR 0xF0, CHR 0x9F, CHR 0x93, CHR 0x89, CHR 0x20, CHR 0xE5, CHR 0xBC, CHR 0xB1,
         CHR 0xE6, CHR 0xB0, CHR 0x97]
      else if sentiment = ''neutral'' then
        [CHR 0xE2, CHR 0x9E, CHR 0xA1, CHR 0xEF, CHR 0xB8, CHR 0x8F, CHR 0x20, CHR 0xE4,
         CHR 0xB8, CHR 0xAD, CHR 0xE7, CHR 0xAB, CHR 0x8B]
      else
        [CHR 0xE2, CHR 0x9D, CHR 0x93, CHR 0x20, CHR 0xE4, CHR 0xB8, CHR 0x8D, CHR 0xE6,
         CHR 0x98, CHR 0x8E])"

section \<open>The crawl cycle (package crawler)\<close>

text \<open>
  The collaborators the crawler holds. \<open>twitter.Client\<close> fetches, \<open>ai.Filter\<close> scores and
  \<open>slack.Notifier\<close> delivers over the network: each method is a parameter that maps the calls
  made so far and its arguments to what it returns. The context argument only reaches
  these methods and is left out. \<open>aiFilter\<close> may be \<open>nil\<close>, which is \<open>None\<close>.
\<close>

record TwitterClient =
  GetUserTweets :: "history \<Rightarrow> string \<Rightarrow> int \<Rightarrow> error + Tweet list"
  SearchTweets :: "history \<Rightarrow> string \<Rightarrow> int \<Rightarrow> error + Tweet list"

record Filter =
  Analyze :: "history \<Rightarrow> Tweet \<Rightarrow> string \<Rightarrow> error + Analysis"

record SlackNotifier =
  NotifySimple :: "history \<Rightarrow> Tweet \<Rightarrow> string \<Rightarrow> error option"
  NotifyTweet :: "history \<Rightarrow> Tweet \<Rightarrow> Analysis \<Rightarrow> error option"

record Crawler =
  config :: Config
  twitterClient :: TwitterClient
  aiFilter :: "Filter option"
  slackNotifier :: SlackNotifier

text \<open>
  The state a cycle works on: the seen store the crawler points to, the file system and
  the calls made so far. Log output is not modelled.
\<close>

record world =
  seenTweets :: SeenTweets
  files :: fs
  calls :: history

definition call :: "event \<Rightarrow> world \<Rightarrow> world" where
  "call e w = w\<lparr>calls := calls w @ [e]\<rparr>"

text \<open>
  The loop over the fetched tweets is the same text in \<open>processTrader\<close> and
  \<open>processKeyword\<close> but for the log messages, so it is modelled once, with the context
  string (\<open>traderInfo\<close>, \<open>keywordInfo\<close>) as a parameter.

  \<open>notify\<close> is the \<open>if c.aiFilter != nil\<close> statement of the loop body. It ends either
  in \<open>continue\<close> or by reaching the statements after it.
\<close>

datatype flow = Continue | Proceeds

definition notify :: "Crawler \<Rightarrow> string \<Rightarrow> Tweet \<Rightarrow> world \<Rightarrow> world \<times> flow" where
  "notify c info tweet w =
     (case aiFilter c of
        Some f \<Rightarrow>
          (let r = Analyze f (calls w) tweet info;
               w1 = call (AnalyzeCall tweet info r) w
           in case r of
                Inl err \<Rightarrow>
                  (let d = NotifySimple (slackNotifier c) (calls w1) tweet info;
                       w2 = call (NotifySimpleCall tweet info d) w1
                   in case d of Some _ \<Rightarrow> (w2, Continue) | None \<Rightarrow> (w2, Proceeds))
              | Inr analysis \<Rightarrow>
                  if Score analysis < MinScore (AI (config c)) then
                    (w1\<lparr>seenTweets := Add (seenTweets w1) (ID tweet)\<rparr>, Continue)
                  else
                    (let d = NotifyTweet (slackNotifier c) (calls w1) tweet analysis;
                         w2 = call (NotifyTweetCall tweet analysis d) w1
                     in case d of Some _ \<Rightarrow> (w2, Continue) | None \<Rightarrow> (w2, Proceeds)))
      | None \<Rightarrow>
          (let d = NotifySimple (slackNotifier c) (calls w) tweet info;
               w1 = call (NotifySimpleCall tweet info d) w
           in case d of Some _ \<Rightarrow> (w1, Continue) | None \<Rightarrow> (w1, Proceeds)))"

text \<open>One iteration of the loop, on the world and the counters \<open>processed\<close>, \<open>notified\<close>.\<close>

definition processTweet ::
  "Crawler \<Rightarrow> string \<Rightarrow> Tweet \<Rightarrow> world \<times> int \<times> int \<Rightarrow> world \<times> int \<times> int" where
  "processTweet c info tweet s =
     (case s of (w, processed, notified) \<Rightarrow>
        if Has (seenTweets w) (ID tweet) then (w, processed, notified)
        else
          (case notify c info tweet w of
             (w', Continue) \<Rightarrow> (w', processed + 1, notified)
           | (w', Proceeds) \<Rightarrow>
               (call (SleepCall 500) (w'\<lparr>seenTweets := Add (seenTweets w') (ID tweet)\<rparr>),
                processed + 1, notified + 1)))"

fun processTweets ::
  "Crawler \<Rightarrow> string \<Rightarrow> Tweet list \<Rightarrow> world \<times> int \<times> int \<Rightarrow> world \<times> int \<times> int" where
  "processTweets c info [] s = s"
| "processTweets c info (tweet # rest) s = processTweets c info rest (processTweet c info tweet s)"

text \<open>
  \<open>processTrader\<close> and \<open>processKeyword\<close> return the world and Go's triple
  \<open>(processed, notified, err)\<close>.
\<close>

definition processTrader :: "Crawler \<Rightarrow> Trader \<Rightarrow> world \<Rightarrow> world \<times> int \<times> int \<times> error option" where
  "processTrader c trader w =
     (let r = GetUserTweets (twitterClient c) (calls w) (TraderUsername trader) 10;
          w1 = call (GetUserTweetsCall (TraderUsername trader) 10 r) w
      in case r of
           Inl err \<Rightarrow> (w1, 0, 0, Some err)
         | Inr fetched \<Rightarrow>
             (let traderInfo = DisplayName trader @ '' (Priority: '' @ Priority trader @ '')''
              in case processTweets c traderInfo fetched (w1, 0, 0) of
                   (w2, processed, notified) \<Rightarrow> (w2, processed, notified, None)))"

definition processKeyword :: "Crawler \<Rightarrow> Keyword \<Rightarrow> world \<Rightarrow> world \<times> int \<times> int \<times> error option" where
  "processKeyword c keyword w =
     (let r = SearchTweets (twitterClient c) (calls w) (Query keyword) 10;
          w1 = call (SearchTweetsCall (Query keyword) 10 r) w
      in case r of
           Inl err \<Rightarrow> (w1, 0, 0, Some err)
         | Inr fetched \<Rightarrow>
             (let keywordInfo = ''Keyword: '' @ Name keyword
              in case processTweets c keywordInfo fetched (w1, 0, 0) of
                   (w2, processed, notified) \<Rightarrow> (w2, processed, notified, None)))"

text \<open>The two loops of \<open>Run\<close>, on the world and the totals.\<close>

fun tradersLoop :: "Crawler \<Rightarrow> Trader list \<Rightarrow> world \<times> int \<times> int \<Rightarrow> world \<times> int \<times> int" where
  "tradersLoop c [] s = s"
| "tradersLoop c (trader # rest) (w, totalProcessed, totalNotified) =
     (case processTrader c trader w of
        (w', processed, notified, Some err) \<Rightarrow>
          tradersLoop c rest (w', totalProcessed, totalNotified)
      | (w', processed, notified, None) \<Rightarrow>
          tradersLoop c rest (w', totalProcessed + processed, totalNotified + notified))"

fun keywordsLoop :: "Crawler \<Rightarrow> Keyword list \<Rightarrow> world \<times> int \<times> int \<Rightarrow> world \<times> int \<times> int" where
  "keywordsLoop c [] s = s"
| "keywordsLoop c (keyword # rest) (w, totalProcessed, totalNotified) =
     (case processKeyword c keyword w of
        (w', processed, notified, Some err) \<Rightarrow>
          keywordsLoop c rest (w', totalProcessed, totalNotified)
      | (w', processed, notified, None) \<Rightarrow>
          keywordsLoop c rest (w', totalProcessed + processed, totalNotified + notified))"

text \<open>
  \<open>Run\<close> returns the world after the cycle and the error it hands to its caller. The
  totals only reach the log.
\<close>

definition Run :: "sys \<Rightarrow> Crawler \<Rightarrow> world \<Rightarrow> world \<times> error option" where
  "Run os c w =
     (case tradersLoop c (Traders (config c)) (w, 0, 0) of
        (w1, p1, n1) \<Rightarrow>
          (case keywordsLoop c (Keywords (config c)) (w1, p1, n1) of
             (w2, totalProcessed, totalNotified) \<Rightarrow>
               (case Save os (seenTweets w2) (calls w2) (files w2) of
                  (err, disk) \<Rightarrow> (call (SaveCall err) (w2\<lparr>files := disk\<rparr>), None))))"

text \<open>
  The scheduler of \<open>main\<close> runs one cycle after another on the same crawler and store;
  \<open>cycles os c n\<close> is the world after \<open>n\<close> of them.
\<close>

primrec cycles :: "sys \<Rightarrow> Crawler \<Rightarrow> nat \<Rightarrow> world \<Rightarrow> world" where
  "cycles os c 0 w = w"
| "cycles os c (Suc n) w = cycles os c n (fst (Run os c w))"

section \<open>Reading the record of calls\<close>

text \<open>The identifier of the tweet a scoring or delivery call is about.\<close>

fun tweetOf :: "event \<Rightarrow> string option" where
  "tweetOf (AnalyzeCall tweet _ _) = Some (ID tweet)"
| "tweetOf (NotifySimpleCall tweet _ _) = Some (ID tweet)"
| "tweetOf (NotifyTweetCall tweet _ _) = Some (ID tweet)"
| "tweetOf _ = None"

text \<open>The target of a fetch: \<open>Inl\<close> the account of a trader, \<open>Inr\<close> the query of a keyword.\<close>

fun fetched :: "event \<Rightarrow> (string + string) option" where
  "fetched (GetUserTweetsCall username _ _) = Some (Inl username)"
| "fetched (SearchTweetsCall query _ _) = Some (Inr query)"
| "fetched _ = None"

fun isSave :: "event \<Rightarrow> bool" where
  "isSave (SaveCall _) = True"
| "isSave _ = False"

text \<open>A delivery call that returned an error.\<close>

fun deliveryError :: "event \<Rightarrow> bool" where
  "deliveryError (NotifySimpleCall _ _ (Some _)) = True"
| "deliveryError (NotifyTweetCall _ _ (Some _)) = True"
| "deliveryError _ = False"

text \<open>
  The store \<open>NewSeenTweets\<close> makes for a path that has no file, after \<open>Add\<close> of every
  identifier of a list.
\<close>

definition added :: "string \<Rightarrow> string list \<Rightarrow> SeenTweets" where
  "added path ids = foldl Add \<lparr>tweets = Map.empty, filePath = path\<rparr> ids"

section \<open>Scenarios\<close>

text \<open>
  Concrete collaborators and inputs on which the theorems below are evaluated: one tweet,
  two traders and a keyword; a Twitter client that fails for the first trader and returns
  the tweet for any other account, and one that is down; a Slack webhook that is down, and
  one that is up; a scorer that is down, and one that gives a fixed score.
\<close>

definition tweet1 :: Tweet where
  "tweet1 = \<lparr>ID = ''1'', Text = ''A'', AuthorID = ''42'', CreatedAt = 0, Username = ''bob''\<rparr>"

definition alice :: Trader where
  "alice = \<lparr>TraderUsername = ''alice'', DisplayName = ''Alice'', Priority = ''high''\<rparr>"

definition bob :: Trader where
  "bob = \<lparr>TraderUsername = ''bob'', DisplayName = ''Bob'', Priority = ''normal''\<rparr>"

definition earnings :: Keyword where
  "earnings = \<lparr>Query = ''$NVDA earnings'', Name = ''NVDA''\<rparr>"

definition analysis_scored :: "int \<Rightarrow> Analysis" where
  "analysis_scored n =
     \<lparr>Score = n, Category = ''market_news'', Sentiment = ''bullish'', Tickers = [],
      Summary = ''summary'', KeyPoints = [], Urgency = ''normal'', Reasoning = ''reasoning''\<rparr>"

definition twitter_flaky :: TwitterClient where
  "twitter_flaky =
     \<lparr>GetUserTweets = (\<lambda>h username maxResults.
        if username = ''alice'' then Inl ''Twitter API error (status 429): '' else Inr [tweet1]),
      SearchTweets = (\<lambda>h query maxResults. Inr [])\<rparr>"

definition twitter_down :: TwitterClient where
  "twitter_down =
     \<lparr>GetUserTweets = (\<lambda>h username maxResults. Inl ''Twitter API error (status 503): ''),
      SearchTweets = (\<lambda>h query maxResults. Inl ''Twitter API error (status 503): '')\<rparr>"

definition slack_down :: SlackNotifier where
  "slack_down =
     \<lparr>NotifySimple = (\<lambda>h tweet info. Some ''Slack webhook returned status 500''),
      NotifyTweet = (\<lambda>h tweet analysis. Some ''Slack webhook returned status 500'')\<rparr>"

definition slack_up :: SlackNotifier where
  "slack_up = \<lparr>NotifySimple = (\<lambda>h tweet info. None), NotifyTweet = (\<lambda>h tweet analysis. None)\<rparr>"

definition filter_down :: Filter where
  "filter_down = \<lparr>Analyze = (\<lambda>h tweet info. Inl ''Claude API error (status 529): '')\<rparr>"

definition filter_scoring :: "int \<Rightarrow> Filter" where
  "filter_scoring n = \<lparr>Analyze = (\<lambda>h tweet info. Inr (analysis_scored n))\<rparr>"

definition crawler_with :: "Filter option \<Rightarrow> SlackNotifier \<Rightarrow> Crawler" where
  "crawler_with f s =
     \<lparr>config =
        \<lparr>AI = \<lparr>Enabled = (case f of None \<Rightarrow> False | Some _ \<Rightarrow> True), MinScore = 70,
               Model = ''model''\<rparr>,
         Traders = [alice, bob], Keywords = [earnings]\<rparr>,
      twitterClient = twitter_flaky, aiFilter = f, slackNotifier = s\<rparr>"

definition world0 :: world where
  "world0 =
     \<lparr>seenTweets = \<lparr>tweets = Map.empty, filePath = ''seen_tweets.json''\<rparr>,
      files = Map.empty, calls = []\<rparr>"

text \<open>
  The JSON texts of the scenarios: what \<open>json.MarshalIndent\<close> writes for the store that
  holds the identifier \<open>1\<close> (an object on three lines, indented by two spaces), and a
  hand-written file that maps the identifier \<open>1\<close> to \<open>false\<close>. \<open>CHR 0x22\<close> is the double
  quote and \<open>CHR 0x0A\<close> the line feed.
\<close>

definition seen1_json :: string where
  "seen1_json =
     ''{'' @ [CHR 0x0A] @ ''  '' @ [CHR 0x22] @ ''1'' @ [CHR 0x22] @ '': true'' @ [CHR 0x0A] @ ''}''"

definition false1_json :: string where
  "false1_json = ''{'' @ [CHR 0x22] @ ''1'' @ [CHR 0x22] @ '': false}''"

text \<open>
  The platform as far as the scenarios use it: the encoder on the store that holds the
  identifier \<open>1\<close>, the decoder on the two texts above and on a text that is not JSON, and
  writes that succeed. No other text or store occurs in a scenario.
\<close>

definition demo_sys :: sys where
  "demo_sys =
     \<lparr>MarshalIndent = (\<lambda>m. Inr seen1_json),
      Unmarshal = (\<lambda>data.
        if data = seen1_json then Inr [''1'' \<mapsto> True]
        else if data = false1_json then Inr [''1'' \<mapsto> False]
        else Inl ''invalid character''),
      WriteFile = (\<lambda>h path data. None)\<rparr>"

section \<open>Facts about the seen store\<close>

lemma Has_iff: "Has st tweetID \<longleftrightarrow> tweets st tweetID = Some True"
  by (auto simp: Has_def split: option.splits)

lemma Has_Add: "Has (Add st Q) P \<longleftrightarrow> P = Q \<or> Has st P"
  by (auto simp: Has_def Add_def)

lemma filePath_Add: "filePath (Add st P) = filePath st"
  by (simp add: Add_def)

lemma tweets_foldl_Add:
  "tweets (foldl Add st ids) = (\<lambda>k. if k \<in> set ids then Some True else tweets st k)"
  by (induction ids arbitrary: st) (auto simp: Add_def fun_eq_iff)

lemma filePath_foldl_Add: "filePath (foldl Add st ids) = filePath st"
  by (induction ids arbitrary: st) (simp_all add: filePath_Add)

lemma tweets_added: "tweets (added path ids) = (\<lambda>k. if k \<in> set ids then Some True else None)"
  by (simp add: added_def tweets_foldl_Add cong: if_cong)

lemma filePath_added: "filePath (added path ids) = path"
  by (simp add: added_def filePath_foldl_Add)

lemma added_collapse: "\<lparr>tweets = tweets (added path ids), filePath = path\<rparr> = added path ids"
  by (simp add: filePath_added)

section \<open>Facts about the loop over the tweets\<close>

lemma call_simps:
  "calls (call e w) = calls w @ [e]"
  "seenTweets (call e w) = seenTweets w"
  "files (call e w) = files w"
  by (simp_all add: call_def)

text \<open>The four ways through \<open>notify\<close>.\<close>

lemma notify_cases:
  obtains
    (plain) d where "aiFilter c = None"
      "d = NotifySimple (slackNotifier c) (calls w) tweet info"
      "notify c info tweet w =
         (call (NotifySimpleCall tweet info d) w, if d = None then Proceeds else Continue)"
  | (fallback) f err d where "aiFilter c = Some f" "Analyze f (calls w) tweet info = Inl err"
      "d = NotifySimple (slackNotifier c) (calls w @ [AnalyzeCall tweet info (Inl err)]) tweet info"
      "notify c info tweet w =
         (call (NotifySimpleCall tweet info d) (call (AnalyzeCall tweet info (Inl err)) w),
          if d = None then Proceeds else Continue)"
  | (low) f a where "aiFilter c = Some f" "Analyze f (calls w) tweet info = Inr a"
      "Score a < MinScore (AI (config c))"
      "notify c info tweet w =
         ((call (AnalyzeCall tweet info (Inr a)) w)\<lparr>seenTweets := Add (seenTweets w) (ID tweet)\<rparr>,
          Continue)"
  | (rich) f a d where "aiFilter c = Some f" "Analyze f (calls w) tweet info = Inr a"
      "MinScore (AI (config c)) \<le> Score a"
      "d = NotifyTweet (slackNotifier c) (calls w @ [AnalyzeCall tweet info (Inr a)]) tweet a"
      "notify c info tweet w =
         (call (NotifyTweetCall tweet a d) (call (AnalyzeCall tweet info (Inr a)) w),
          if d = None then Proceeds else Continue)"
proof (cases "aiFilter c")
  case None
  then show ?thesis
    by (intro plain [OF None refl]) (simp add: notify_def Let_def split: option.splits)
next
  case (Some f)
  show ?thesis
  proof (cases "Analyze f (calls w) tweet info")
    case (Inl err)
    then show ?thesis
      by (intro fallback [OF Some Inl refl])
        (simp add: notify_def Some Let_def call_simps split: option.splits)
  next
    case (Inr a)
    show ?thesis
    proof (cases "Score a < MinScore (AI (config c))")
      case True
      then show ?thesis
        by (intro low [OF Some Inr True]) (simp add: notify_def Some Inr Let_def call_simps)
    next
      case False
      then have le: "MinScore (AI (config c)) \<le> Score a" by simp
      show ?thesis
        by (intro rich [OF Some Inr le refl])
          (simp add: notify_def Some Inr False Let_def call_simps split: option.splits)
    qed
  qed
qed

lemma processTweet_seen:
  "Has (seenTweets w) (ID tweet) \<Longrightarrow> processTweet c info tweet (w, p, n) = (w, p, n)"
  by (simp add: processTweet_def)

lemma processTweet_new:
  "\<not> Has (seenTweets w) (ID tweet) \<Longrightarrow>
   processTweet c info tweet (w, p, n) =
     (case notify c info tweet w of
        (w', Continue) \<Rightarrow> (w', p + 1, n)
      | (w', Proceeds) \<Rightarrow>
          (call (SleepCall 500) (w'\<lparr>seenTweets := Add (seenTweets w') (ID tweet)\<rparr>), p + 1, n + 1))"
  by (simp add: processTweet_def)

lemma processTweet_not_skipped:
  assumes "\<not> Has (seenTweets v) (ID tweet)"
  shows "case processTweet c info tweet (v, p, n) of
           (v', p', n') \<Rightarrow>
             p' = p + 1 \<and> length (calls v) < length (calls v') \<and>
             tweetOf (calls v' ! length (calls v)) = Some (ID tweet)"
  by (rule notify_cases [where c = c and info = info and tweet = tweet and w = v])
    (auto simp: processTweet_new [OF assms] call_simps nth_append split: if_splits)

lemma config_irrelevant_on_scorer_error:
  assumes "aiFilter c = Some f" "Analyze f (calls w) tweet info = Inl err"
  shows "processTweet (c\<lparr>config := cfg\<rparr>) info tweet (w, p, n) = processTweet c info tweet (w, p, n)"
  using assms by (simp add: processTweet_def notify_def Let_def)

section \<open>Facts about the calls of a cycle\<close>

lemma map_filter_append:
  "List.map_filter f (xs @ ys) = List.map_filter f xs @ List.map_filter f ys"
  by (simp add: List.map_filter_def)

lemma processTrader_world:
  assumes "GetUserTweets (twitterClient c) (calls w) (TraderUsername trader) 10 = Inr ts"
  shows "\<exists>info. fst (processTrader c trader w) =
    fst (processTweets c info ts (call (GetUserTweetsCall (TraderUsername trader) 10 (Inr ts)) w, 0, 0))"
  by (rule exI [of _ "DisplayName trader @ '' (Priority: '' @ Priority trader @ '')''"])
    (simp add: processTrader_def Let_def assms split: prod.splits)

lemma processKeyword_world:
  assumes "SearchTweets (twitterClient c) (calls w) (Query keyword) 10 = Inr ts"
  shows "\<exists>info. fst (processKeyword c keyword w) =
    fst (processTweets c info ts (call (SearchTweetsCall (Query keyword) 10 (Inr ts)) w, 0, 0))"
  by (rule exI [of _ "''Keyword: '' @ Name keyword"])
    (simp add: processKeyword_def Let_def assms split: prod.splits)

lemma processTrader_error:
  assumes "GetUserTweets (twitterClient c) (calls w) (TraderUsername trader) 10 = Inl err"
  shows "processTrader c trader w =
    (call (GetUserTweetsCall (TraderUsername trader) 10 (Inl err)) w, 0, 0, Some err)"
  by (simp add: processTrader_def Let_def assms)

lemma processKeyword_error:
  assumes "SearchTweets (twitterClient c) (calls w) (Query keyword) 10 = Inl err"
  shows "processKeyword c keyword w =
    (call (SearchTweetsCall (Query keyword) 10 (Inl err)) w, 0, 0, Some err)"
  by (simp add: processKeyword_def Let_def assms)

lemma tradersLoop_world:
  "\<exists>p' n'. tradersLoop c (trader # rest) (w, p, n) =
            tradersLoop c rest (fst (processTrader c trader w), p', n')"
  by (cases "processTrader c trader w") (auto split: option.splits)

lemma keywordsLoop_world:
  "\<exists>p' n'. keywordsLoop c (keyword # rest) (w, p, n) =
            keywordsLoop c rest (fst (processKeyword c keyword w), p', n')"
  by (cases "processKeyword c keyword w") (auto split: option.splits)

lemma Run_world:
  "fst (Run os c w) =
     (let w2 = fst (keywordsLoop c (Keywords (config c)) (tradersLoop c (Traders (config c)) (w, 0, 0)));
          r = Save os (seenTweets w2) (calls w2) (files w2)
      in call (SaveCall (fst r)) (w2\<lparr>files := snd r\<rparr>))"
  by (simp add: Run_def Let_def split: prod.splits)

lemma processTweet_calls:
  "\<exists>es. calls (fst (processTweet c info tweet s)) = calls (fst s) @ es \<and>
        List.map_filter fetched es = [] \<and> filter isSave es = []"
proof -
  obtain w p n where s: "s = (w, p, n)" by (cases s)
  show ?thesis
  proof (cases "Has (seenTweets w) (ID tweet)")
    case True
    then show ?thesis by (simp add: s processTweet_seen map_filter_simps)
  next
    case False
    show ?thesis
      by (rule notify_cases [where c = c and info = info and tweet = tweet and w = w])
        (simp_all add: s processTweet_new [OF False] map_filter_simps call_simps)
  qed
qed

lemma processTweets_calls:
  "\<exists>es. calls (fst (processTweets c info ts s)) = calls (fst s) @ es \<and>
        List.map_filter fetched es = [] \<and> filter isSave es = []"
proof (induction ts arbitrary: s)
  case Nil
  then show ?case by (simp add: map_filter_simps)
next
  case (Cons t ts)
  obtain es1 where 1: "calls (fst (processTweet c info t s)) = calls (fst s) @ es1"
    "List.map_filter fetched es1 = []" "filter isSave es1 = []"
    using processTweet_calls by blast
  obtain es2 where 2: "calls (fst (processTweets c info ts (processTweet c info t s))) =
      calls (fst (processTweet c info t s)) @ es2"
    "List.map_filter fetched es2 = []" "filter isSave es2 = []"
    using Cons.IH by blast
  show ?case
    by (rule exI [of _ "es1 @ es2"]) (simp add: 1 2 map_filter_append)
qed

lemma processTrader_calls:
  "\<exists>es. calls (fst (processTrader c trader w)) = calls w @ es \<and>
        List.map_filter fetched es = [Inl (TraderUsername trader)] \<and> filter isSave es = []"
proof (cases "GetUserTweets (twitterClient c) (calls w) (TraderUsername trader) 10")
  case (Inl err)
  then show ?thesis by (simp add: processTrader_error map_filter_simps call_simps)
next
  case (Inr ts)
  let ?w1 = "call (GetUserTweetsCall (TraderUsername trader) 10 (Inr ts)) w"
  obtain info where w2: "fst (processTrader c trader w) = fst (processTweets c info ts (?w1, 0, 0))"
    using processTrader_world [OF Inr] by blast
  obtain es where es: "calls (fst (processTweets c info ts (?w1, 0, 0))) = calls (fst (?w1, 0::int, 0::int)) @ es"
    "List.map_filter fetched es = []" "filter isSave es = []"
    using processTweets_calls by blast
  show ?thesis
    by (rule exI [of _ "GetUserTweetsCall (TraderUsername trader) 10 (Inr ts) # es"])
      (simp add: w2 es map_filter_simps call_simps)
qed

lemma processKeyword_calls:
  "\<exists>es. calls (fst (processKeyword c keyword w)) = calls w @ es \<and>
        List.map_filter fetched es = [Inr (Query keyword)] \<and> filter isSave es = []"
proof (cases "SearchTweets (twitterClient c) (calls w) (Query keyword) 10")
  case (Inl err)
  then show ?thesis by (simp add: processKeyword_error map_filter_simps call_simps)
next
  case (Inr ts)
  let ?w1 = "call (SearchTweetsCall (Query keyword) 10 (Inr ts)) w"
  obtain info where w2: "fst (processKeyword c keyword w) = fst (processTweets c info ts (?w1, 0, 0))"
    using processKeyword_world [OF Inr] by blast
  obtain es where es: "calls (fst (processTweets c info ts (?w1, 0, 0))) = calls (fst (?w1, 0::int, 0::int)) @ es"
    "List.map_filter fetched es = []" "filter isSave es = []"
    using processTweets_calls by blast
  show ?thesis
    by (rule exI [of _ "SearchTweetsCall (Query keyword) 10 (Inr ts) # es"])
      (simp add: w2 es map_filter_simps call_simps)
qed

lemma tradersLoop_calls:
  "\<exists>es. calls (fst (tradersLoop c ts s)) = calls (fst s) @ es \<and>
        List.map_filter fetched es = map (Inl \<circ> TraderUsername) ts \<and> filter isSave es = []"
proof (induction ts arbitrary: s)
  case Nil
  then show ?case by (simp add: map_filter_simps)
next
  case (Cons t ts)
  obtain w p n where s: "s = (w, p, n)" by (cases s)
  obtain p' n' where step: "tradersLoop c (t # ts) (w, p, n) =
      tradersLoop c ts (fst (processTrader c t w), p', n')"
    using tradersLoop_world by blast
  obtain es1 where 1: "calls (fst (processTrader c t w)) = calls w @ es1"
    "List.map_filter fetched es1 = [Inl (TraderUsername t)]" "filter isSave es1 = []"
    using processTrader_calls by blast
  obtain es2 where 2: "calls (fst (tradersLoop c ts (fst (processTrader c t w), p', n'))) =
      calls (fst (fst (processTrader c t w), p', n')) @ es2"
    "List.map_filter fetched es2 = map (Inl \<circ> TraderUsername) ts" "filter isSave es2 = []"
    using Cons.IH by blast
  show ?case unfolding s step
    by (rule exI [of _ "es1 @ es2"]) (simp add: 1 2 map_filter_append)
qed

lemma keywordsLoop_calls:
  "\<exists>es. calls (fst (keywordsLoop c ks s)) = calls (fst s) @ es \<and>
        List.map_filter fetched es = map (Inr \<circ> Query) ks \<and> filter isSave es = []"
proof (induction ks arbitrary: s)
  case Nil
  then show ?case by (simp add: map_filter_simps)
next
  case (Cons k ks)
  obtain w p n where s: "s = (w, p, n)" by (cases s)
  obtain p' n' where step: "keywordsLoop c (k # ks) (w, p, n) =
      keywordsLoop c ks (fst (processKeyword c k w), p', n')"
    using keywordsLoop_world by blast
  obtain es1 where 1: "calls (fst (processKeyword c k w)) = calls w @ es1"
    "List.map_filter fetched es1 = [Inr (Query k)]" "filter isSave es1 = []"
    using processKeyword_calls by blast
  obtain es2 where 2: "calls (fst (keywordsLoop c ks (fst (processKeyword c k w), p', n'))) =
      calls (fst (fst (processKeyword c k w), p', n')) @ es2"
    "List.map_filter fetched es2 = map (Inr \<circ> Query) ks" "filter isSave es2 = []"
    using Cons.IH by blast
  show ?case unfolding s step
    by (rule exI [of _ "es1 @ es2"]) (simp add: 1 2 map_filter_append)
qed

lemma Run_calls:
  "\<exists>es e. calls (fst (Run os c w)) = calls w @ es @ [SaveCall e] \<and>
     List.map_filter fetched es =
       map (Inl \<circ> TraderUsername) (Traders (config c)) @ map (Inr \<circ> Query) (Keywords (config c)) \<and>
     filter isSave es = []"
proof -
  let ?s1 = "tradersLoop c (Traders (config c)) (w, 0, 0)"
  let ?s2 = "keywordsLoop c (Keywords (config c)) ?s1"
  obtain es1 where 1: "calls (fst ?s1) = calls (fst (w, 0::int, 0::int)) @ es1"
    "List.map_filter fetched es1 = map (Inl \<circ> TraderUsername) (Traders (config c))"
    "filter isSave es1 = []"
    using tradersLoop_calls by blast
  obtain es2 where 2: "calls (fst ?s2) = calls (fst ?s1) @ es2"
    "List.map_filter fetched es2 = map (Inr \<circ> Query) (Keywords (config c))"
    "filter isSave es2 = []"
    using keywordsLoop_calls by blast
  show ?thesis
    by (rule exI [of _ "es1 @ es2"]) (simp add: Run_world Let_def 1 2 map_filter_append call_simps)
qed

lemma tradersLoop_fold:
  "fst (tradersLoop c ts s) = foldl (\<lambda>w t. fst (processTrader c t w)) (fst s) ts"
proof (induction ts arbitrary: s)
  case Nil
  then show ?case by simp
next
  case (Cons t ts)
  obtain w p n where s: "s = (w, p, n)" by (cases s)
  obtain p' n' where step: "tradersLoop c (t # ts) (w, p, n) =
      tradersLoop c ts (fst (processTrader c t w), p', n')"
    using tradersLoop_world by blast
  show ?case unfolding s step by (simp add: Cons.IH)
qed

lemma keywordsLoop_fold:
  "fst (keywordsLoop c ks s) = foldl (\<lambda>w k. fst (processKeyword c k w)) (fst s) ks"
proof (induction ks arbitrary: s)
  case Nil
  then show ?case by simp
next
  case (Cons k ks)
  obtain w p n where s: "s = (w, p, n)" by (cases s)
  obtain p' n' where step: "keywordsLoop c (k # ks) (w, p, n) =
      keywordsLoop c ks (fst (processKeyword c k w), p', n')"
    using keywordsLoop_world by blast
  show ?case unfolding s step by (simp add: Cons.IH)
qed

lemma processTrader_ok:
  assumes "GetUserTweets (twitterClient c) (calls w) (TraderUsername trader) 10 = Inr posts"
  shows "processTrader c trader w =
    (case processTweets c (DisplayName trader @ '' (Priority: '' @ Priority trader @ '')'') posts
            (call (GetUserTweetsCall (TraderUsername trader) 10 (Inr posts)) w, 0, 0) of
       (w', processed, notified) \<Rightarrow> (w', processed, notified, None))"
  by (simp add: processTrader_def Let_def assms)

lemma processKeyword_ok:
  assumes "SearchTweets (twitterClient c) (calls w) (Query keyword) 10 = Inr posts"
  shows "processKeyword c keyword w =
    (case processTweets c (''Keyword: '' @ Name keyword) posts
            (call (SearchTweetsCall (Query keyword) 10 (Inr posts)) w, 0, 0) of
       (w', processed, notified) \<Rightarrow> (w', processed, notified, None))"
  by (simp add: processKeyword_def Let_def assms)

lemma Run_parts:
  "let w2 = foldl (\<lambda>w k. fst (processKeyword c k w))
              (foldl (\<lambda>w t. fst (processTrader c t w)) w (Traders (config c)))
              (Keywords (config c));
       r = Save os (seenTweets w2) (calls w2) (files w2)
   in seenTweets (fst (Run os c w)) = seenTweets w2 \<and>
      files (fst (Run os c w)) = snd r \<and>
      calls (fst (Run os c w)) = calls w2 @ [SaveCall (fst r)]"
  by (simp add: Run_world Let_def call_simps keywordsLoop_fold tradersLoop_fold)

lemma Save_ok:
  assumes "MarshalIndent os (tweets st) = Inr data" "WriteFile os h (filePath st) data = None"
  shows "Save os st h disk = (None, disk(filePath st \<mapsto> File data))"
  by (simp add: Save_def assms)

section \<open>What every step keeps of a seen identifier\<close>

text \<open>
  Once \<open>Has\<close> holds of an identifier it holds after every step, and no step adds a scoring
  or delivery call about that identifier.
\<close>

lemma notify_keeps:
  assumes "ID tweet \<noteq> P"
  shows "Has (seenTweets (fst (notify c info tweet w))) P = Has (seenTweets w) P \<and>
         filter (\<lambda>e. tweetOf e = Some P) (calls (fst (notify c info tweet w))) =
         filter (\<lambda>e. tweetOf e = Some P) (calls w)"
  by (insert assms, rule notify_cases [where c = c and info = info and tweet = tweet and w = w])
    (auto simp: Has_Add call_simps)

lemma processTweet_keeps:
  assumes "Has (seenTweets (fst s)) P"
  shows "Has (seenTweets (fst (processTweet c info tweet s))) P \<and>
         filter (\<lambda>e. tweetOf e = Some P) (calls (fst (processTweet c info tweet s))) =
         filter (\<lambda>e. tweetOf e = Some P) (calls (fst s))"
proof -
  obtain w p n where s: "s = (w, p, n)" by (cases s)
  show ?thesis
  proof (cases "Has (seenTweets w) (ID tweet)")
    case True
    with assms show ?thesis by (simp add: s processTweet_seen)
  next
    case False
    with assms have ne: "ID tweet \<noteq> P" by (auto simp: s)
    obtain w' fl where n: "notify c info tweet w = (w', fl)" by (cases "notify c info tweet w")
    from notify_keeps [OF ne, of c info w] assms
    have "Has (seenTweets w') P"
      "filter (\<lambda>e. tweetOf e = Some P) (calls w') = filter (\<lambda>e. tweetOf e = Some P) (calls w)"
      by (simp_all add: n s)
    then show ?thesis
      by (cases fl) (simp_all add: s processTweet_new [OF False] n Has_Add call_simps)
  qed
qed

lemma processTweets_keeps:
  assumes "Has (seenTweets (fst s)) P"
  shows "Has (seenTweets (fst (processTweets c info ts s))) P \<and>
         filter (\<lambda>e. tweetOf e = Some P) (calls (fst (processTweets c info ts s))) =
         filter (\<lambda>e. tweetOf e = Some P) (calls (fst s))"
  using assms
proof (induction ts arbitrary: s)
  case Nil
  then show ?case by simp
next
  case (Cons t ts)
  from processTweet_keeps [OF Cons.prems, of c info t]
  have 1: "Has (seenTweets (fst (processTweet c info t s))) P"
    and 2: "filter (\<lambda>e. tweetOf e = Some P) (calls (fst (processTweet c info t s))) =
         filter (\<lambda>e. tweetOf e = Some P) (calls (fst s))"
    by simp_all
  from Cons.IH [OF 1] 2 show ?case by simp
qed

lemma processTrader_keeps:
  assumes "Has (seenTweets w) P"
  shows "Has (seenTweets (fst (processTrader c trader w))) P \<and>
         filter (\<lambda>e. tweetOf e = Some P) (calls (fst (processTrader c trader w))) =
         filter (\<lambda>e. tweetOf e = Some P) (calls w)"
proof (cases "GetUserTweets (twitterClient c) (calls w) (TraderUsername trader) 10")
  case (Inl err)
  with assms show ?thesis by (simp add: processTrader_error call_simps)
next
  case (Inr ts)
  let ?w1 = "call (GetUserTweetsCall (TraderUsername trader) 10 (Inr ts)) w"
  obtain info where w2: "fst (processTrader c trader w) = fst (processTweets c info ts (?w1, 0, 0))"
    using processTrader_world [OF Inr] by blast
  have "Has (seenTweets (fst (?w1, 0::int, 0::int))) P" using assms by (simp add: call_simps)
  from processTweets_keeps [OF this, of c info ts] show ?thesis
    by (simp add: w2 call_simps)
qed

lemma processKeyword_keeps:
  assumes "Has (seenTweets w) P"
  shows "Has (seenTweets (fst (processKeyword c keyword w))) P \<and>
         filter (\<lambda>e. tweetOf e = Some P) (calls (fst (processKeyword c keyword w))) =
         filter (\<lambda>e. tweetOf e = Some P) (calls w)"
proof (cases "SearchTweets (twitterClient c) (calls w) (Query keyword) 10")
  case (Inl err)
  with assms show ?thesis by (simp add: processKeyword_error call_simps)
next
  case (Inr ts)
  let ?w1 = "call (SearchTweetsCall (Query keyword) 10 (Inr ts)) w"
  obtain info where w2: "fst (processKeyword c keyword w) = fst (processTweets c info ts (?w1, 0, 0))"
    using processKeyword_world [OF Inr] by blast
  have "Has (seenTweets (fst (?w1, 0::int, 0::int))) P" using assms by (simp add: call_simps)
  from processTweets_keeps [OF this, of c info ts] show ?thesis
    by (simp add: w2 call_simps)
qed

lemma tradersLoop_keeps:
  assumes "Has (seenTweets (fst s)) P"
  shows "Has (seenTweets (fst (tradersLoop c ts s))) P \<and>
         filter (\<lambda>e. tweetOf e = Some P) (calls (fst (tradersLoop c ts s))) =
         filter (\<lambda>e. tweetOf e = Some P) (calls (fst s))"
  using assms
proof (induction ts arbitrary: s)
  case Nil
  then show ?case by simp
next
  case (Cons t ts)
  obtain w p n where s: "s = (w, p, n)" by (cases s)
  obtain p' n' where step: "tradersLoop c (t # ts) (w, p, n) =
      tradersLoop c ts (fst (processTrader c t w), p', n')"
    using tradersLoop_world by blast
  from Cons.prems have "Has (seenTweets w) P" by (simp add: s)
  from processTrader_keeps [OF this, of c t]
  have 1: "Has (seenTweets (fst (fst (processTrader c t w), p', n'))) P"
    and 2: "filter (\<lambda>e. tweetOf e = Some P) (calls (fst (processTrader c t w))) =
         filter (\<lambda>e. tweetOf e = Some P) (calls w)"
    by simp_all
  from Cons.IH [OF 1] 2 show ?case unfolding s step by simp
qed

lemma keywordsLoop_keeps:
  assumes "Has (seenTweets (fst s)) P"
  shows "Has (seenTweets (fst (keywordsLoop c ks s))) P \<and>
         filter (\<lambda>e. tweetOf e = Some P) (calls (fst (keywordsLoop c ks s))) =
         filter (\<lambda>e. tweetOf e = Some P) (calls (fst s))"
  using assms
proof (induction ks arbitrary: s)
  case Nil
  then show ?case by simp
next
  case (Cons k ks)
  obtain w p n where s: "s = (w, p, n)" by (cases s)
  obtain p' n' where step: "keywordsLoop c (k # ks) (w, p, n) =
      keywordsLoop c ks (fst (processKeyword c k w), p', n')"
    using keywordsLoop_world by blast
  from Cons.prems have "Has (seenTweets w) P" by (simp add: s)
  from processKeyword_keeps [OF this, of c k]
  have 1: "Has (seenTweets (fst (fst (processKeyword c k w), p', n'))) P"
    and 2: "filter (\<lambda>e. tweetOf e = Some P) (calls (fst (processKeyword c k w))) =
         filter (\<lambda>e. tweetOf e = Some P) (calls w)"
    by simp_all
  from Cons.IH [OF 1] 2 show ?case unfolding s step by simp
qed

lemma Run_keeps:
  assumes "Has (seenTweets w) P"
  shows "Has (seenTweets (fst (Run os c w))) P \<and>
         filter (\<lambda>e. tweetOf e = Some P) (calls (fst (Run os c w))) =
         filter (\<lambda>e. tweetOf e = Some P) (calls w)"
proof -
  let ?s1 = "tradersLoop c (Traders (config c)) (w, 0, 0)"
  from assms have "Has (seenTweets (fst (w, 0::int, 0::int))) P" by simp
  from tradersLoop_keeps [OF this, of c "Traders (config c)"]
  have 1: "Has (seenTweets (fst ?s1)) P"
    and 2: "filter (\<lambda>e. tweetOf e = Some P) (calls (fst ?s1)) = filter (\<lambda>e. tweetOf e = Some P) (calls w)"
    by simp_all
  from keywordsLoop_keeps [OF 1, of c "Keywords (config c)"] 2
  show ?thesis by (simp add: Run_world Let_def call_simps)
qed

lemma cycles_keeps:
  assumes "Has (seenTweets w) P"
  shows "Has (seenTweets (cycles os c k w)) P \<and>
         filter (\<lambda>e. tweetOf e = Some P) (calls (cycles os c k w)) =
         filter (\<lambda>e. tweetOf e = Some P) (calls w)"
  using assms
proof (induction k arbitrary: w)
  case 0
  then show ?case by simp
next
  case (Suc k)
  from Run_keeps [OF Suc.prems, of os c]
  have 1: "Has (seenTweets (fst (Run os c w))) P"
    and 2: "filter (\<lambda>e. tweetOf e = Some P) (calls (fst (Run os c w))) =
         filter (\<lambda>e. tweetOf e = Some P) (calls w)"
    by simp_all
  from Suc.IH [OF 1] 2 show ?case by simp
qed

section \<open>Claims about one fetched post\<close>

text \<open>
  Claim C1, counterexample. No scorer, the Slack webhook is down, and the fetch for a
  trader returns one new tweet: the delivery is attempted and returns an error, the tweet
  is counted as processed and not as notified, and its identifier is not in the seen
  store afterwards. When the same trader is processed again, the delivery of the tweet is
  attempted a second time.
\<close>

theorem delivery_error_counterexample:
  "processTrader (crawler_with None slack_down) bob world0 =
     (world0\<lparr>calls :=
        [GetUserTweetsCall ''bob'' 10 (Inr [tweet1]),
         NotifySimpleCall tweet1 ''Bob (Priority: normal)'' (Some ''Slack webhook returned status 500'')]\<rparr>,
      1, 0, None) \<and>
   \<not> Has (seenTweets (fst (processTrader (crawler_with None slack_down) bob world0))) (ID tweet1) \<and>
   calls (fst (processTrader (crawler_with None slack_down) bob
       (fst (processTrader (crawler_with None slack_down) bob world0)))) =
     [GetUserTweetsCall ''bob'' 10 (Inr [tweet1]),
      NotifySimpleCall tweet1 ''Bob (Priority: normal)'' (Some ''Slack webhook returned status 500''),
      GetUserTweetsCall ''bob'' 10 (Inr [tweet1]),
      NotifySimpleCall tweet1 ''Bob (Priority: normal)'' (Some ''Slack webhook returned status 500'')]"
  by (simp add: processTrader_def processTweet_def notify_def call_def crawler_with_def slack_down_def
      twitter_flaky_def bob_def world0_def tweet1_def Has_def Let_def)

text \<open>
  Claim C1, as amended. For a post that is new, if a delivery call made for it returns an
  error, then the seen store is left as it was, so the post is still not seen; the post is
  counted as processed and not as notified; and the loop goes on with the next post. The
  post is therefore not skipped when it is fed into the loop again while the seen store is
  the one left behind, whatever the file system, the record of calls, the context and the
  counters are by then: it is counted as processed again, and the first call made then is
  a scoring or delivery call about this post.
\<close>

theorem delivery_error_leaves_post_unseen:
  assumes new: "\<not> Has (seenTweets w) (ID tweet)"
    and failed: "list_ex deliveryError
      (drop (length (calls w)) (calls (fst (processTweet c info tweet (w, p, n)))))"
  shows "case processTweet c info tweet (w, p, n) of
           (w', p', n') \<Rightarrow>
             seenTweets w' = seenTweets w \<and> \<not> Has (seenTweets w') (ID tweet) \<and>
             p' = p + 1 \<and> n' = n \<and>
             processTweets c info (tweet # rest) (w, p, n) = processTweets c info rest (w', p', n') \<and>
             (case processTweet c ctx tweet (v\<lparr>seenTweets := seenTweets w'\<rparr>, q, m) of
                (v', p'', n'') \<Rightarrow>
                  p'' = q + 1 \<and> length (calls v) < length (calls v') \<and>
                  tweetOf (calls v' ! length (calls v)) = Some (ID tweet))"
proof -
  have 1: "seenTweets (fst (processTweet c info tweet (w, p, n))) = seenTweets w \<and>
        snd (processTweet c info tweet (w, p, n)) = (p + 1, n)"
    by (insert failed, rule notify_cases [where c = c and info = info and tweet = tweet and w = w])
      (auto simp: processTweet_new [OF new] call_simps split: if_splits)
  from new have "\<not> Has (seenTweets (v\<lparr>seenTweets := seenTweets w\<rparr>)) (ID tweet)" by simp
  from processTweet_not_skipped [OF this, where c = c and info = ctx and p = q and n = m]
  have 2: "case processTweet c ctx tweet (v\<lparr>seenTweets := seenTweets w\<rparr>, q, m) of
             (v', p'', n'') \<Rightarrow>
               p'' = q + 1 \<and> length (calls v) < length (calls v') \<and>
               tweetOf (calls v' ! length (calls v)) = Some (ID tweet)"
    by simp
  obtain w' p' n' where r: "processTweet c info tweet (w, p, n) = (w', p', n')"
    by (cases "processTweet c info tweet (w, p, n)")
  from 1 have s: "seenTweets w' = seenTweets w" and pn: "p' = p + 1" "n' = n"
    by (simp_all add: r)
  from 2 new s pn show ?thesis by (simp add: r)
qed

text \<open>
  Claim C1, witness: the new tweet of the scenario, with the Slack webhook down, fed once
  for a trader and then again for a keyword.
\<close>

theorem delivery_error_leaves_post_unseen_witness:
  "\<not> Has (seenTweets world0) (ID tweet1) \<and>
   list_ex deliveryError (drop (length (calls world0))
     (calls (fst (processTweet (crawler_with None slack_down) ''Bob (Priority: normal)'' tweet1 (world0, 0, 0))))) \<and>
   (case processTweet (crawler_with None slack_down) ''Bob (Priority: normal)'' tweet1 (world0, 0, 0) of
      (w', p', n') \<Rightarrow> seenTweets w' = seenTweets world0 \<and> \<not> Has (seenTweets w') (ID tweet1) \<and>
         p' = 1 \<and> n' = 0 \<and>
         (case processTweet (crawler_with None slack_down) ''Keyword: NVDA'' tweet1
                 (world0\<lparr>seenTweets := seenTweets w'\<rparr>, 0, 0) of
            (v', p'', n'') \<Rightarrow>
              p'' = 1 \<and> length (calls world0) < length (calls v') \<and>
              tweetOf (calls v' ! length (calls world0)) = Some (ID tweet1)))"
proof -
  have new: "\<not> Has (seenTweets world0) (ID tweet1)"
    by (simp add: world0_def Has_def)
  have failed: "list_ex deliveryError (drop (length (calls world0))
     (calls (fst (processTweet (crawler_with None slack_down) ''Bob (Priority: normal)'' tweet1 (world0, 0, 0)))))"
    by (simp add: processTweet_def notify_def call_def crawler_with_def slack_down_def world0_def
        tweet1_def Has_def Let_def)
  from delivery_error_leaves_post_unseen [OF new failed, where rest = "[]" and v = world0
      and ctx = "''Keyword: NVDA''" and q = 0 and m = 0] new failed
  show ?thesis by (auto split: prod.splits)
qed

text \<open>
  Claim C2. Add an identifier \<open>P\<close> to the seen store. Then go on in any way the crawler
  does: through the posts that follow in the same loop, through the traders and keywords
  that follow in the same cycle, and through any number of later cycles. In the world
  reached, \<open>P\<close> is still seen; no scoring or delivery call about \<open>P\<close> has been added to
  the record of calls; and a post with identifier \<open>P\<close> that is fed into the loop is
  skipped: the world (the seen store and the record of calls in it) and the counters of
  processed and notified posts stay as they are.
\<close>

theorem seen_post_is_skipped:
  "let w0 = w\<lparr>seenTweets := Add (seenTweets w) P\<rparr>;
       w1 = fst (processTweets c info1 rest (w0, p1, n1));
       w2 = fst (keywordsLoop c keywords (tradersLoop c traders (w1, p2, n2)));
       w3 = cycles os c k w2
   in Has (seenTweets w3) P \<and>
      filter (\<lambda>e. tweetOf e = Some P) (calls w3) = filter (\<lambda>e. tweetOf e = Some P) (calls w) \<and>
      processTweet c info (tweet\<lparr>ID := P\<rparr>) (w3, p, n) = (w3, p, n)"
proof -
  define w0 where "w0 = w\<lparr>seenTweets := Add (seenTweets w) P\<rparr>"
  define s1 where "s1 = processTweets c info1 rest (w0, p1, n1)"
  define s2 where "s2 = tradersLoop c traders (fst s1, p2, n2)"
  define w2 where "w2 = fst (keywordsLoop c keywords s2)"
  define w3 where "w3 = cycles os c k w2"
  have h0: "Has (seenTweets (fst (w0, p1, n1))) P" and c0: "calls w0 = calls w"
    by (simp_all add: w0_def Has_Add)
  from processTweets_keeps [OF h0, of c info1 rest]
  have h1: "Has (seenTweets (fst (fst s1, p2, n2))) P"
    and c1: "filter (\<lambda>e. tweetOf e = Some P) (calls (fst s1)) = filter (\<lambda>e. tweetOf e = Some P) (calls w)"
    by (simp_all add: s1_def c0)
  from tradersLoop_keeps [OF h1, of c traders]
  have h2: "Has (seenTweets (fst s2)) P"
    and c2: "filter (\<lambda>e. tweetOf e = Some P) (calls (fst s2)) = filter (\<lambda>e. tweetOf e = Some P) (calls w)"
    by (simp_all add: s2_def c1)
  from keywordsLoop_keeps [OF h2, of c "keywords"]
  have h3: "Has (seenTweets w2) P"
    and c3: "filter (\<lambda>e. tweetOf e = Some P) (calls w2) = filter (\<lambda>e. tweetOf e = Some P) (calls w)"
    by (simp_all add: w2_def c2)
  from cycles_keeps [OF h3, of os c k]
  have h4: "Has (seenTweets w3) P"
    and c4: "filter (\<lambda>e. tweetOf e = Some P) (calls w3) = filter (\<lambda>e. tweetOf e = Some P) (calls w)"
    by (simp_all add: w3_def c3)
  from h4 have "processTweet c info (tweet\<lparr>ID := P\<rparr>) (w3, p, n) = (w3, p, n)"
    by (simp add: processTweet_seen)
  with h4 c4 show ?thesis
    by (simp add: Let_def w3_def w2_def s2_def s1_def w0_def)
qed

text \<open>
  Claim C3. With a scorer present that succeeds on a new post: if the score is at least
  the configured minimum, and so in particular if it is equal to it, the rich
  notification is attempted right after the scoring (and a pause follows when it is
  delivered); if the score is below the minimum, the scoring is the only call made for
  the post, no notification is attempted, the post is not counted as notified, and its
  identifier is added to the seen store.
\<close>

theorem threshold_gate:
  assumes new: "\<not> Has (seenTweets w) (ID tweet)"
    and enabled: "aiFilter c = Some f"
    and scored: "Analyze f (calls w) tweet info = Inr a"
  shows "case processTweet c info tweet (w, p, n) of
           (w', p', n') \<Rightarrow>
             (MinScore (AI (config c)) \<le> Score a \<longrightarrow>
                (let d = NotifyTweet (slackNotifier c) (calls w @ [AnalyzeCall tweet info (Inr a)]) tweet a
                 in calls w' = calls w @ AnalyzeCall tweet info (Inr a) # NotifyTweetCall tweet a d #
                      (if d = None then [SleepCall 500] else []))) \<and>
             (Score a < MinScore (AI (config c)) \<longrightarrow>
                calls w' = calls w @ [AnalyzeCall tweet info (Inr a)] \<and>
                seenTweets w' = Add (seenTweets w) (ID tweet) \<and> Has (seenTweets w') (ID tweet) \<and>
                n' = n)"
  by (insert enabled scored, rule notify_cases [where c = c and info = info and tweet = tweet and w = w])
    (auto simp: processTweet_new [OF new] Has_Add call_simps Let_def split: if_splits)

text \<open>
  Claim C3, witness: the minimum is 70; a post scored 70 gets the rich notification, a
  post scored 69 gets none and is marked seen.
\<close>

theorem threshold_gate_witness:
  "\<not> Has (seenTweets world0) (ID tweet1) \<and>
   aiFilter (crawler_with (Some (filter_scoring 70)) slack_up) = Some (filter_scoring 70) \<and>
   Analyze (filter_scoring 70) (calls world0) tweet1 ''ctx'' = Inr (analysis_scored 70) \<and>
   MinScore (AI (config (crawler_with (Some (filter_scoring 70)) slack_up))) = Score (analysis_scored 70) \<and>
   calls (fst (processTweet (crawler_with (Some (filter_scoring 70)) slack_up) ''ctx'' tweet1 (world0, 0, 0))) =
     [AnalyzeCall tweet1 ''ctx'' (Inr (analysis_scored 70)),
      NotifyTweetCall tweet1 (analysis_scored 70) None, SleepCall 500] \<and>
   aiFilter (crawler_with (Some (filter_scoring 69)) slack_up) = Some (filter_scoring 69) \<and>
   Analyze (filter_scoring 69) (calls world0) tweet1 ''ctx'' = Inr (analysis_scored 69) \<and>
   Score (analysis_scored 69) < MinScore (AI (config (crawler_with (Some (filter_scoring 69)) slack_up))) \<and>
   calls (fst (processTweet (crawler_with (Some (filter_scoring 69)) slack_up) ''ctx'' tweet1 (world0, 0, 0))) =
     [AnalyzeCall tweet1 ''ctx'' (Inr (analysis_scored 69))] \<and>
   Has (seenTweets (fst (processTweet (crawler_with (Some (filter_scoring 69)) slack_up) ''ctx'' tweet1 (world0, 0, 0))))
     (ID tweet1)"
proof -
  have new: "\<not> Has (seenTweets world0) (ID tweet1)"
    by (simp add: world0_def Has_def)
  have e70: "aiFilter (crawler_with (Some (filter_scoring 70)) slack_up) = Some (filter_scoring 70)"
    and e69: "aiFilter (crawler_with (Some (filter_scoring 69)) slack_up) = Some (filter_scoring 69)"
    by (simp_all add: crawler_with_def)
  have s70: "Analyze (filter_scoring 70) (calls world0) tweet1 ''ctx'' = Inr (analysis_scored 70)"
    and s69: "Analyze (filter_scoring 69) (calls world0) tweet1 ''ctx'' = Inr (analysis_scored 69)"
    by (simp_all add: filter_scoring_def)
  have m70: "MinScore (AI (config (crawler_with (Some (filter_scoring 70)) slack_up))) = Score (analysis_scored 70)"
    and m69: "Score (analysis_scored 69) < MinScore (AI (config (crawler_with (Some (filter_scoring 69)) slack_up)))"
    by (simp_all add: crawler_with_def analysis_scored_def)
  have up: "NotifyTweet (slackNotifier (crawler_with (Some (filter_scoring 70)) slack_up)) h t x = None"
    for h t x
    by (simp add: crawler_with_def slack_up_def)
  have c0: "calls world0 = []" by (simp add: world0_def)
  from threshold_gate [OF new e70 s70, of 0 0] m70
  have 1: "calls (fst (processTweet (crawler_with (Some (filter_scoring 70)) slack_up) ''ctx'' tweet1 (world0, 0, 0))) =
     [AnalyzeCall tweet1 ''ctx'' (Inr (analysis_scored 70)),
      NotifyTweetCall tweet1 (analysis_scored 70) None, SleepCall 500]"
    by (simp add: c0 up Let_def split: prod.splits)
  from threshold_gate [OF new e69 s69, of 0 0] m69
  have 2: "calls (fst (processTweet (crawler_with (Some (filter_scoring 69)) slack_up) ''ctx'' tweet1 (world0, 0, 0))) =
     [AnalyzeCall tweet1 ''ctx'' (Inr (analysis_scored 69))] \<and>
   Has (seenTweets (fst (processTweet (crawler_with (Some (filter_scoring 69)) slack_up) ''ctx'' tweet1 (world0, 0, 0))))
     (ID tweet1)"
    by (simp add: c0 Has_Add split: prod.splits)
  from new e70 s70 m70 1 e69 s69 m69 2 show ?thesis by (intro conjI) simp_all
qed

text \<open>
  Claim C4, counterexample. The scorer is down and the Slack webhook is down: the plain
  notification is attempted for the new tweet and returns an error, and the identifier of
  the tweet is not in the seen store afterwards.
\<close>

theorem scorer_error_counterexample:
  "processTrader (crawler_with (Some filter_down) slack_down) bob world0 =
     (world0\<lparr>calls :=
        [GetUserTweetsCall ''bob'' 10 (Inr [tweet1]),
         AnalyzeCall tweet1 ''Bob (Priority: normal)'' (Inl ''Claude API error (status 529): ''),
         NotifySimpleCall tweet1 ''Bob (Priority: normal)'' (Some ''Slack webhook returned status 500'')]\<rparr>,
      1, 0, None) \<and>
   \<not> Has (seenTweets (fst (processTrader (crawler_with (Some filter_down) slack_down) bob world0))) (ID tweet1)"
  by (simp add: processTrader_def processTweet_def notify_def call_def crawler_with_def slack_down_def
      twitter_flaky_def bob_def world0_def tweet1_def Has_def Let_def filter_down_def)

text \<open>
  Claim C4, as amended. With a scorer present that returns an error on a new post, the
  plain notification is attempted for the post right after the scoring; the identifier of
  the post is added to the seen store, and the post counted as notified, exactly when that
  delivery returns no error; the post is counted as processed either way. None of this
  depends on the configuration, and so not on the minimum score.
\<close>

theorem scorer_error_falls_back:
  assumes new: "\<not> Has (seenTweets w) (ID tweet)"
    and enabled: "aiFilter c = Some f"
    and failed: "Analyze f (calls w) tweet info = Inl err"
  shows "(case processTweet c info tweet (w, p, n) of
           (w', p', n') \<Rightarrow>
             (let d = NotifySimple (slackNotifier c) (calls w @ [AnalyzeCall tweet info (Inl err)]) tweet info
              in calls w' = calls w @ AnalyzeCall tweet info (Inl err) # NotifySimpleCall tweet info d #
                   (if d = None then [SleepCall 500] else []) \<and>
                 (Has (seenTweets w') (ID tweet) \<longleftrightarrow> d = None) \<and>
                 p' = p + 1 \<and> n' = (if d = None then n + 1 else n))) \<and>
         processTweet (c\<lparr>config := cfg\<rparr>) info tweet (w, p, n) = processTweet c info tweet (w, p, n)"
proof -
  have "case processTweet c info tweet (w, p, n) of
           (w', p', n') \<Rightarrow>
             (let d = NotifySimple (slackNotifier c) (calls w @ [AnalyzeCall tweet info (Inl err)]) tweet info
              in calls w' = calls w @ AnalyzeCall tweet info (Inl err) # NotifySimpleCall tweet info d #
                   (if d = None then [SleepCall 500] else []) \<and>
                 (Has (seenTweets w') (ID tweet) \<longleftrightarrow> d = None) \<and>
                 p' = p + 1 \<and> n' = (if d = None then n + 1 else n))"
    by (insert enabled failed new,
        rule notify_cases [where c = c and info = info and tweet = tweet and w = w])
      (auto simp: processTweet_new [OF new] Has_Add call_simps Let_def split: if_splits)
  with config_irrelevant_on_scorer_error [OF enabled failed] show ?thesis by simp
qed

text \<open>Claim C4, witness: the scorer is down and the Slack webhook is up.\<close>

theorem scorer_error_falls_back_witness:
  "\<not> Has (seenTweets world0) (ID tweet1) \<and>
   aiFilter (crawler_with (Some filter_down) slack_up) = Some filter_down \<and>
   Analyze filter_down (calls world0) tweet1 ''ctx'' = Inl ''Claude API error (status 529): '' \<and>
   calls (fst (processTweet (crawler_with (Some filter_down) slack_up) ''ctx'' tweet1 (world0, 0, 0))) =
     [AnalyzeCall tweet1 ''ctx'' (Inl ''Claude API error (status 529): ''),
      NotifySimpleCall tweet1 ''ctx'' None, SleepCall 500] \<and>
   Has (seenTweets (fst (processTweet (crawler_with (Some filter_down) slack_up) ''ctx'' tweet1 (world0, 0, 0))))
     (ID tweet1) \<and>
   snd (processTweet (crawler_with (Some filter_down) slack_up) ''ctx'' tweet1 (world0, 0, 0)) = (1, 1)"
proof -
  have new: "\<not> Has (seenTweets world0) (ID tweet1)"
    by (simp add: world0_def Has_def)
  have e: "aiFilter (crawler_with (Some filter_down) slack_up) = Some filter_down"
    by (simp add: crawler_with_def)
  have f: "Analyze filter_down (calls world0) tweet1 ''ctx'' = Inl ''Claude API error (status 529): ''"
    by (simp add: filter_down_def)
  have up: "NotifySimple (slackNotifier (crawler_with (Some filter_down) slack_up)) h t x = None"
    for h t x
    by (simp add: crawler_with_def slack_up_def)
  have c0: "calls world0 = []" by (simp add: world0_def)
  from scorer_error_falls_back [OF new e f, of 0 0, THEN conjunct1]
  have 1: "calls (fst (processTweet (crawler_with (Some filter_down) slack_up) ''ctx'' tweet1 (world0, 0, 0))) =
     [AnalyzeCall tweet1 ''ctx'' (Inl ''Claude API error (status 529): ''),
      NotifySimpleCall tweet1 ''ctx'' None, SleepCall 500] \<and>
   Has (seenTweets (fst (processTweet (crawler_with (Some filter_down) slack_up) ''ctx'' tweet1 (world0, 0, 0))))
     (ID tweet1) \<and>
   snd (processTweet (crawler_with (Some filter_down) slack_up) ''ctx'' tweet1 (world0, 0, 0)) = (1, 1)"
    by (simp add: c0 up Let_def split: prod.splits)
  from new e f 1 show ?thesis by (intro conjI) simp_all
qed

section \<open>Claims about the seen store\<close>

text \<open>
  Claim C5. Start from a new store, \<open>Add\<close> the identifiers of a list, and \<open>Save\<close>. If the
  save reports no error, and \<open>encoding/json\<close> decodes what it encoded for this store back
  to the same entries, then loading the store from the same path succeeds and gives a
  store in which \<open>Has\<close> is true for exactly the identifiers of the list.
\<close>

theorem save_load_roundtrip:
  assumes saved: "Save os (added path ids) h disk = (None, disk')"
    and codec: "\<forall>data. MarshalIndent os (tweets (added path ids)) = Inr data \<longrightarrow>
                  Unmarshal os data = Inr (tweets (added path ids))"
  shows "NewSeenTweets os path disk' = Inr (added path ids) \<and>
         (\<forall>tweetID. Has (added path ids) tweetID \<longleftrightarrow> tweetID \<in> set ids)"
proof -
  let ?st = "added path ids"
  from saved obtain data where m: "MarshalIndent os (tweets ?st) = Inr data"
    and d: "disk' = disk(path \<mapsto> File data)"
    by (auto simp: Save_def filePath_added split: sum.splits option.splits)
  from codec m have u: "Unmarshal os data = Inr (tweets ?st)" by blast
  have "NewSeenTweets os path disk' = Inr \<lparr>tweets = tweets ?st, filePath = path\<rparr>"
    by (simp add: NewSeenTweets_def Load_def Stat_def ReadFile_def d u)
  then have "NewSeenTweets os path disk' = Inr ?st"
    by (simp only: added_collapse)
  moreover have "Has ?st k \<longleftrightarrow> k \<in> set ids" for k
    by (simp add: Has_iff tweets_added)
  ultimately show ?thesis by simp
qed

text \<open>
  Claim C5, witness: the store that holds the identifier \<open>1\<close>, saved to an empty file
  system and loaded again.
\<close>

theorem save_load_roundtrip_witness:
  "Save demo_sys (added ''seen_tweets.json'' [''1'']) [] Map.empty =
     (None, [''seen_tweets.json'' \<mapsto> File seen1_json]) \<and>
   Unmarshal demo_sys seen1_json = Inr (tweets (added ''seen_tweets.json'' [''1''])) \<and>
   NewSeenTweets demo_sys ''seen_tweets.json'' [''seen_tweets.json'' \<mapsto> File seen1_json] =
     Inr (added ''seen_tweets.json'' [''1'']) \<and>
   Has (added ''seen_tweets.json'' [''1'']) ''1'' \<and> \<not> Has (added ''seen_tweets.json'' [''1'']) ''2''"
proof -
  have s: "Save demo_sys (added ''seen_tweets.json'' [''1'']) [] Map.empty =
     (None, [''seen_tweets.json'' \<mapsto> File seen1_json])"
    by (simp add: Save_def demo_sys_def filePath_added)
  have u: "Unmarshal demo_sys seen1_json = Inr (tweets (added ''seen_tweets.json'' [''1'']))"
    by (simp add: demo_sys_def added_def Add_def)
  have c: "\<forall>data. MarshalIndent demo_sys (tweets (added ''seen_tweets.json'' [''1''])) = Inr data \<longrightarrow>
                  Unmarshal demo_sys data = Inr (tweets (added ''seen_tweets.json'' [''1'']))"
    using u by (simp add: demo_sys_def)
  note r = save_load_roundtrip [OF s c]
  from r have 1: "NewSeenTweets demo_sys ''seen_tweets.json'' [''seen_tweets.json'' \<mapsto> File seen1_json] =
     Inr (added ''seen_tweets.json'' [''1''])" by (rule conjunct1)
  from r have 2: "Has (added ''seen_tweets.json'' [''1'']) ''1''" by simp
  from r have 3: "\<not> Has (added ''seen_tweets.json'' [''1'']) ''2''" by simp
  from s u 1 2 3 show ?thesis by (intro conjI)
qed

text \<open>
  Claim C6. Creating the seen store for a path where no file exists gives an empty store
  and no error. Where the file exists and its content does not decode, creating the store
  gives an error, and the start of the program ends fatally with it.
\<close>

theorem load_missing_or_malformed:
  "(disk path = None \<longrightarrow>
      NewSeenTweets os path disk = Inr \<lparr>tweets = Map.empty, filePath = path\<rparr>) \<and>
   (disk path = Some (File data) \<and> Unmarshal os data = Inl err \<longrightarrow>
      NewSeenTweets os path disk = Inl (''failed to unmarshal seen tweets: '' @ err) \<and>
      main_initSeenTweets os path disk =
        Fatal (''Failed to initialize seen tweets: '' @ ''failed to unmarshal seen tweets: '' @ err))"
  by (simp add: NewSeenTweets_def main_initSeenTweets_def Load_def Stat_def ReadFile_def)

text \<open>
  Claim C6, witness: an empty file system, and one whose seen file holds a text that is
  not JSON.
\<close>

theorem load_missing_or_malformed_witness:
  "Map.empty ''seen_tweets.json'' = (None :: node option) \<and>
   NewSeenTweets demo_sys ''seen_tweets.json'' Map.empty =
     Inr \<lparr>tweets = Map.empty, filePath = ''seen_tweets.json''\<rparr> \<and>
   [''seen_tweets.json'' \<mapsto> File ''not json''] ''seen_tweets.json'' = Some (File ''not json'') \<and>
   Unmarshal demo_sys ''not json'' = Inl ''invalid character'' \<and>
   NewSeenTweets demo_sys ''seen_tweets.json'' [''seen_tweets.json'' \<mapsto> File ''not json''] =
     Inl ''failed to unmarshal seen tweets: invalid character'' \<and>
   main_initSeenTweets demo_sys ''seen_tweets.json'' [''seen_tweets.json'' \<mapsto> File ''not json''] =
     Fatal ''Failed to initialize seen tweets: failed to unmarshal seen tweets: invalid character''"
proof -
  have u: "Unmarshal demo_sys ''not json'' = Inl ''invalid character''"
    by (simp add: demo_sys_def seen1_json_def false1_json_def)
  from load_missing_or_malformed [where disk = Map.empty and path = "''seen_tweets.json''"
      and os = demo_sys]
    load_missing_or_malformed [where disk = "[''seen_tweets.json'' \<mapsto> File ''not json'']"
      and path = "''seen_tweets.json''" and data = "''not json''" and os = demo_sys
      and err = "''invalid character''"] u
  show ?thesis by simp
qed

text \<open>
  Claim C8, counterexample: a seen file that maps the identifier \<open>1\<close> to \<open>false\<close> loads
  into a store that has the key \<open>1\<close>, and \<open>Has\<close> reports \<open>1\<close> as not seen.
\<close>

theorem has_false_entry_counterexample:
  "NewSeenTweets demo_sys ''seen_tweets.json'' [''seen_tweets.json'' \<mapsto> File false1_json] =
     Inr \<lparr>tweets = [''1'' \<mapsto> False], filePath = ''seen_tweets.json''\<rparr> \<and>
   ''1'' \<in> dom (tweets \<lparr>tweets = [''1'' \<mapsto> False], filePath = ''seen_tweets.json''\<rparr>) \<and>
   \<not> Has \<lparr>tweets = [''1'' \<mapsto> False], filePath = ''seen_tweets.json''\<rparr> ''1''"
  by (simp add: NewSeenTweets_def Load_def Stat_def ReadFile_def demo_sys_def Has_def
      seen1_json_def false1_json_def)

text \<open>
  Claim C8, as amended. \<open>Has\<close> returns the stored boolean: it reports an identifier as
  seen exactly when the key is present with the value \<open>true\<close>. This holds for a store
  loaded from a file as well: an entry of the file counts as seen exactly when its value
  is \<open>true\<close>.
\<close>

theorem has_is_stored_value:
  "(Has st tweetID \<longleftrightarrow> tweets st tweetID = Some True) \<and>
   (disk path = Some (File data) \<and> Unmarshal os data = Inr m \<longrightarrow>
      NewSeenTweets os path disk = Inr \<lparr>tweets = m, filePath = path\<rparr> \<and>
      (Has \<lparr>tweets = m, filePath = path\<rparr> tweetID \<longleftrightarrow> m tweetID = Some True))"
  by (simp add: Has_iff NewSeenTweets_def Load_def Stat_def ReadFile_def)

text \<open>Claim C8, witness: the file that maps the identifier \<open>1\<close> to \<open>false\<close>.\<close>

theorem has_is_stored_value_witness:
  "[''seen_tweets.json'' \<mapsto> File false1_json] ''seen_tweets.json'' = Some (File false1_json) \<and>
   Unmarshal demo_sys false1_json = Inr [''1'' \<mapsto> False] \<and>
   NewSeenTweets demo_sys ''seen_tweets.json'' [''seen_tweets.json'' \<mapsto> File false1_json] =
     Inr \<lparr>tweets = [''1'' \<mapsto> False], filePath = ''seen_tweets.json''\<rparr> \<and>
   \<not> Has \<lparr>tweets = [''1'' \<mapsto> False], filePath = ''seen_tweets.json''\<rparr> ''1''"
proof -
  have u: "Unmarshal demo_sys false1_json = Inr [''1'' \<mapsto> False]"
    by (simp add: demo_sys_def seen1_json_def false1_json_def)
  from has_is_stored_value [where tweetID = "''1''"
      and disk = "[''seen_tweets.json'' \<mapsto> File false1_json]"
      and path = "''seen_tweets.json''" and data = false1_json and os = demo_sys
      and m = "[''1'' \<mapsto> False]"] u
  show ?thesis by simp
qed

section \<open>Claims about the cycle\<close>

text \<open>
  Claim C7. When the fetch for a trader returns an error, \<open>processTrader\<close> returns that
  error with both counts zero and only the failed fetch recorded, and the loop over the
  traders goes on with the traders that follow, with the totals and the seen store as
  they were; the same holds for a keyword. When the fetch succeeds, the posts it returned
  go through the loop over the tweets. Each of the two loops of a cycle applies
  \<open>processTrader\<close> (\<open>processKeyword\<close>) to every target of its list, in order, to the
  world the target before it left behind, whatever that target returned. After both loops
  the cycle calls \<open>Save\<close> once, on the seen store and the file system the loops left
  behind: the seen store after the cycle is that store, the file system after the cycle is
  the one \<open>Save\<close> returns, and the last call of the cycle records what \<open>Save\<close> returned.
  Where the encoding and the write succeed, the file of the store holds the encoding of
  that store. In the record of calls the cycle adds a fetch for every configured trader
  and then for every configured keyword, in the order of the configuration, with no save
  among them, and then the one save.
\<close>

theorem fetch_error_is_isolated:
  "(GetUserTweets (twitterClient c) (calls w) (TraderUsername trader) 10 = Inl err \<longrightarrow>
      processTrader c trader w =
        (call (GetUserTweetsCall (TraderUsername trader) 10 (Inl err)) w, 0, 0, Some err) \<and>
      tradersLoop c (trader # moreTraders) (w, p, n) =
        tradersLoop c moreTraders (call (GetUserTweetsCall (TraderUsername trader) 10 (Inl err)) w, p, n)) \<and>
   (SearchTweets (twitterClient c) (calls w) (Query keyword) 10 = Inl err \<longrightarrow>
      processKeyword c keyword w =
        (call (SearchTweetsCall (Query keyword) 10 (Inl err)) w, 0, 0, Some err) \<and>
      keywordsLoop c (keyword # moreKeywords) (w, p, n) =
        keywordsLoop c moreKeywords (call (SearchTweetsCall (Query keyword) 10 (Inl err)) w, p, n)) \<and>
   (GetUserTweets (twitterClient c) (calls w) (TraderUsername trader) 10 = Inr posts \<longrightarrow>
      processTrader c trader w =
        (case processTweets c (DisplayName trader @ '' (Priority: '' @ Priority trader @ '')'') posts
                (call (GetUserTweetsCall (TraderUsername trader) 10 (Inr posts)) w, 0, 0) of
           (w', processed, notified) \<Rightarrow> (w', processed, notified, None))) \<and>
   (SearchTweets (twitterClient c) (calls w) (Query keyword) 10 = Inr posts \<longrightarrow>
      processKeyword c keyword w =
        (case processTweets c (''Keyword: '' @ Name keyword) posts
                (call (SearchTweetsCall (Query keyword) 10 (Inr posts)) w, 0, 0) of
           (w', processed, notified) \<Rightarrow> (w', processed, notified, None))) \<and>
   fst (tradersLoop c moreTraders (w, p, n)) = foldl (\<lambda>w t. fst (processTrader c t w)) w moreTraders \<and>
   fst (keywordsLoop c moreKeywords (w, p, n)) = foldl (\<lambda>w k. fst (processKeyword c k w)) w moreKeywords \<and>
   (let w2 = foldl (\<lambda>w k. fst (processKeyword c k w))
               (foldl (\<lambda>w t. fst (processTrader c t w)) w (Traders (config c)))
               (Keywords (config c));
        r = Save os (seenTweets w2) (calls w2) (files w2)
    in seenTweets (fst (Run os c w)) = seenTweets w2 \<and>
       files (fst (Run os c w)) = snd r \<and>
       calls (fst (Run os c w)) = calls w2 @ [SaveCall (fst r)] \<and>
       (MarshalIndent os (tweets (seenTweets w2)) = Inr data \<and>
        WriteFile os (calls w2) (filePath (seenTweets w2)) data = None \<longrightarrow>
          files (fst (Run os c w)) = (files w2)(filePath (seenTweets w2) \<mapsto> File data) \<and>
          last (calls (fst (Run os c w))) = SaveCall None)) \<and>
   (\<exists>es e. calls (fst (Run os c w)) = calls w @ es @ [SaveCall e] \<and>
      List.map_filter fetched es =
        map (Inl \<circ> TraderUsername) (Traders (config c)) @ map (Inr \<circ> Query) (Keywords (config c)) \<and>
      filter isSave es = [])"
proof -
  have A: "GetUserTweets (twitterClient c) (calls w) (TraderUsername trader) 10 = Inl err \<longrightarrow>
      processTrader c trader w =
        (call (GetUserTweetsCall (TraderUsername trader) 10 (Inl err)) w, 0, 0, Some err) \<and>
      tradersLoop c (trader # moreTraders) (w, p, n) =
        tradersLoop c moreTraders (call (GetUserTweetsCall (TraderUsername trader) 10 (Inl err)) w, p, n)"
    by (simp add: processTrader_error)
  have B: "SearchTweets (twitterClient c) (calls w) (Query keyword) 10 = Inl err \<longrightarrow>
      processKeyword c keyword w =
        (call (SearchTweetsCall (Query keyword) 10 (Inl err)) w, 0, 0, Some err) \<and>
      keywordsLoop c (keyword # moreKeywords) (w, p, n) =
        keywordsLoop c moreKeywords (call (SearchTweetsCall (Query keyword) 10 (Inl err)) w, p, n)"
    by (simp add: processKeyword_error)
  have C: "GetUserTweets (twitterClient c) (calls w) (TraderUsername trader) 10 = Inr posts \<longrightarrow>
      processTrader c trader w =
        (case processTweets c (DisplayName trader @ '' (Priority: '' @ Priority trader @ '')'') posts
                (call (GetUserTweetsCall (TraderUsername trader) 10 (Inr posts)) w, 0, 0) of
           (w', processed, notified) \<Rightarrow> (w', processed, notified, None))"
    using processTrader_ok by blast
  have D: "SearchTweets (twitterClient c) (calls w) (Query keyword) 10 = Inr posts \<longrightarrow>
      processKeyword c keyword w =
        (case processTweets c (''Keyword: '' @ Name keyword) posts
                (call (SearchTweetsCall (Query keyword) 10 (Inr posts)) w, 0, 0) of
           (w', processed, notified) \<Rightarrow> (w', processed, notified, None))"
    using processKeyword_ok by blast
  have E: "fst (tradersLoop c moreTraders (w, p, n)) = foldl (\<lambda>w t. fst (processTrader c t w)) w moreTraders"
    and F: "fst (keywordsLoop c moreKeywords (w, p, n)) = foldl (\<lambda>w k. fst (processKeyword c k w)) w moreKeywords"
    by (simp_all add: tradersLoop_fold keywordsLoop_fold)
  define w2 where "w2 = foldl (\<lambda>w k. fst (processKeyword c k w))
               (foldl (\<lambda>w t. fst (processTrader c t w)) w (Traders (config c)))
               (Keywords (config c))"
  define r where "r = Save os (seenTweets w2) (calls w2) (files w2)"
  from Run_parts [of c w os]
  have G1: "seenTweets (fst (Run os c w)) = seenTweets w2"
    and G2: "files (fst (Run os c w)) = snd r"
    and G3: "calls (fst (Run os c w)) = calls w2 @ [SaveCall (fst r)]"
    by (simp_all add: Let_def w2_def r_def)
  have G4: "MarshalIndent os (tweets (seenTweets w2)) = Inr data \<and>
        WriteFile os (calls w2) (filePath (seenTweets w2)) data = None \<longrightarrow>
          files (fst (Run os c w)) = (files w2)(filePath (seenTweets w2) \<mapsto> File data) \<and>
          last (calls (fst (Run os c w))) = SaveCall None"
    by (simp add: G2 G3 r_def Save_ok)
  have G: "let w2 = foldl (\<lambda>w k. fst (processKeyword c k w))
               (foldl (\<lambda>w t. fst (processTrader c t w)) w (Traders (config c)))
               (Keywords (config c));
        r = Save os (seenTweets w2) (calls w2) (files w2)
    in seenTweets (fst (Run os c w)) = seenTweets w2 \<and>
       files (fst (Run os c w)) = snd r \<and>
       calls (fst (Run os c w)) = calls w2 @ [SaveCall (fst r)] \<and>
       (MarshalIndent os (tweets (seenTweets w2)) = Inr data \<and>
        WriteFile os (calls w2) (filePath (seenTweets w2)) data = None \<longrightarrow>
          files (fst (Run os c w)) = (files w2)(filePath (seenTweets w2) \<mapsto> File data) \<and>
          last (calls (fst (Run os c w))) = SaveCall None)"
    unfolding Let_def using G1 G2 G3 G4 unfolding w2_def r_def by blast
  from A B C D E F G Run_calls [of os c w] show ?thesis by blast
qed

text \<open>
  Claim C7, witness: the fetch fails for the first of two traders; the second trader is
  still processed and its new tweet delivered and marked seen, the keyword is still
  searched, and the cycle ends with one save that writes the store holding that tweet. A
  second crawler, whose Twitter client is down, shows the failed search.
\<close>

theorem fetch_error_is_isolated_witness:
  "GetUserTweets (twitterClient (crawler_with None slack_up)) (calls world0) (TraderUsername alice) 10 =
     Inl ''Twitter API error (status 429): '' \<and>
   tradersLoop (crawler_with None slack_up) [alice, bob] (world0, 0, 0) =
     tradersLoop (crawler_with None slack_up) [bob]
       (call (GetUserTweetsCall ''alice'' 10 (Inl ''Twitter API error (status 429): '')) world0, 0, 0) \<and>
   SearchTweets (twitterClient ((crawler_with None slack_up)\<lparr>twitterClient := twitter_down\<rparr>))
       (calls world0) (Query earnings) 10 =
     Inl ''Twitter API error (status 503): '' \<and>
   keywordsLoop ((crawler_with None slack_up)\<lparr>twitterClient := twitter_down\<rparr>) [earnings] (world0, 0, 0) =
     (call (SearchTweetsCall ''$NVDA earnings'' 10 (Inl ''Twitter API error (status 503): '')) world0, 0, 0) \<and>
   GetUserTweets (twitterClient (crawler_with None slack_up)) (calls world0) (TraderUsername bob) 10 =
     Inr [tweet1] \<and>
   processTrader (crawler_with None slack_up) bob world0 =
     (world0\<lparr>seenTweets := \<lparr>tweets = [''1'' \<mapsto> True], filePath = ''seen_tweets.json''\<rparr>,
        calls := [GetUserTweetsCall ''bob'' 10 (Inr [tweet1]),
                  NotifySimpleCall tweet1 ''Bob (Priority: normal)'' None,
                  SleepCall 500]\<rparr>,
      1, 1, None) \<and>
   SearchTweets (twitterClient (crawler_with None slack_up)) (calls world0) (Query earnings) 10 = Inr [] \<and>
   processKeyword (crawler_with None slack_up) earnings world0 =
     (call (SearchTweetsCall ''$NVDA earnings'' 10 (Inr [])) world0, 0, 0, None) \<and>
   MarshalIndent demo_sys [''1'' \<mapsto> True] = Inr seen1_json \<and>
   WriteFile demo_sys
       [GetUserTweetsCall ''alice'' 10 (Inl ''Twitter API error (status 429): ''),
        GetUserTweetsCall ''bob'' 10 (Inr [tweet1]),
        NotifySimpleCall tweet1 ''Bob (Priority: normal)'' None,
        SleepCall 500,
        SearchTweetsCall ''$NVDA earnings'' 10 (Inr [])]
       ''seen_tweets.json'' seen1_json = None \<and>
   fst (Run demo_sys (crawler_with None slack_up) world0) =
     \<lparr>seenTweets = \<lparr>tweets = [''1'' \<mapsto> True], filePath = ''seen_tweets.json''\<rparr>,
      files = [''seen_tweets.json'' \<mapsto> File seen1_json],
      calls =
        [GetUserTweetsCall ''alice'' 10 (Inl ''Twitter API error (status 429): ''),
         GetUserTweetsCall ''bob'' 10 (Inr [tweet1]),
         NotifySimpleCall tweet1 ''Bob (Priority: normal)'' None,
         SleepCall 500,
         SearchTweetsCall ''$NVDA earnings'' 10 (Inr []),
         SaveCall None]\<rparr>"
proof -
  let ?c = "crawler_with None slack_up"
  let ?d = "(crawler_with None slack_up)\<lparr>twitterClient := twitter_down\<rparr>"
  have hA: "GetUserTweets (twitterClient ?c) (calls world0) (TraderUsername alice) 10 =
     Inl ''Twitter API error (status 429): ''"
    by (simp add: crawler_with_def twitter_flaky_def alice_def)
  have hB: "SearchTweets (twitterClient ?d) (calls world0) (Query earnings) 10 =
     Inl ''Twitter API error (status 503): ''"
    by (simp add: twitter_down_def)
  have hC: "GetUserTweets (twitterClient ?c) (calls world0) (TraderUsername bob) 10 = Inr [tweet1]"
    by (simp add: crawler_with_def twitter_flaky_def bob_def)
  have hD: "SearchTweets (twitterClient ?c) (calls world0) (Query earnings) 10 = Inr []"
    by (simp add: crawler_with_def twitter_flaky_def)
  have hM: "MarshalIndent demo_sys m = Inr seen1_json" for m
    by (simp add: demo_sys_def)
  have hW: "WriteFile demo_sys h path data = None" for h path data
    by (simp add: demo_sys_def)
  from fetch_error_is_isolated [where c = ?c and w = world0 and trader = alice
      and err = "''Twitter API error (status 429): ''" and moreTraders = "[bob]" and p = 0 and n = 0] hA
  have A: "tradersLoop ?c [alice, bob] (world0, 0, 0) =
     tradersLoop ?c [bob]
       (call (GetUserTweetsCall ''alice'' 10 (Inl ''Twitter API error (status 429): '')) world0, 0, 0)"
    by (simp add: alice_def)
  from fetch_error_is_isolated [where c = ?d and w = world0 and keyword = earnings
      and err = "''Twitter API error (status 503): ''" and moreKeywords = "[]" and p = 0 and n = 0] hB
  have B: "keywordsLoop ?d [earnings] (world0, 0, 0) =
     (call (SearchTweetsCall ''$NVDA earnings'' 10 (Inl ''Twitter API error (status 503): '')) world0, 0, 0)"
    by (simp add: earnings_def)
  from fetch_error_is_isolated [where c = ?c and w = world0 and trader = bob
      and posts = "[tweet1]"] hC
  have C: "processTrader ?c bob world0 =
     (world0\<lparr>seenTweets := \<lparr>tweets = [''1'' \<mapsto> True], filePath = ''seen_tweets.json''\<rparr>,
        calls := [GetUserTweetsCall ''bob'' 10 (Inr [tweet1]),
                  NotifySimpleCall tweet1 ''Bob (Priority: normal)'' None,
                  SleepCall 500]\<rparr>,
      1, 1, None)"
    by (simp add: processTweet_def notify_def call_def crawler_with_def slack_up_def bob_def
        world0_def tweet1_def Has_def Add_def Let_def)
  from fetch_error_is_isolated [where c = ?c and w = world0 and keyword = earnings
      and posts = "[]"] hD
  have D: "processKeyword ?c earnings world0 =
     (call (SearchTweetsCall ''$NVDA earnings'' 10 (Inr [])) world0, 0, 0, None)"
    by (simp add: earnings_def)
  from fetch_error_is_isolated [where c = ?c and w = world0 and os = demo_sys and data = seen1_json]
  have R: "fst (Run demo_sys ?c world0) =
     \<lparr>seenTweets = \<lparr>tweets = [''1'' \<mapsto> True], filePath = ''seen_tweets.json''\<rparr>,
      files = [''seen_tweets.json'' \<mapsto> File seen1_json],
      calls =
        [GetUserTweetsCall ''alice'' 10 (Inl ''Twitter API error (status 429): ''),
         GetUserTweetsCall ''bob'' 10 (Inr [tweet1]),
         NotifySimpleCall tweet1 ''Bob (Priority: normal)'' None,
         SleepCall 500,
         SearchTweetsCall ''$NVDA earnings'' 10 (Inr []),
         SaveCall None]\<rparr>"
    by (simp add: Run_def processTrader_def processKeyword_def processTweet_def notify_def call_def
        crawler_with_def slack_up_def twitter_flaky_def alice_def bob_def earnings_def world0_def
        tweet1_def Has_def Add_def Save_def demo_sys_def Let_def)
  from hA A hB B hC C hD D hM [of "[''1'' \<mapsto> True]"] hW R show ?thesis by (intro conjI)
qed

section \<open>Claims about the notification\<close>

text \<open>
  Claim C9. The colour and the icon of an urgency, and the label of a sentiment, are fixed:
  critical is red (\<open>#FF0000\<close>), high is orange (\<open>#FF9900\<close>), normal is green (\<open>#36A64F\<close>),
  low is gray (\<open>#808080\<close>), each with its own icon, and any other urgency gets the colour
  and the icon of normal; bullish, bearish and neutral have their labels, and any other
  sentiment gets the label for unknown. Icons and labels are given as their UTF-8 bytes.
\<close>

theorem urgency_sentiment_mapping:
  "getColorByUrgency ''critical'' = ''#FF0000'' \<and>
   getColorByUrgency ''high'' = ''#FF9900'' \<and>
   getColorByUrgency ''normal'' = ''#36A64F'' \<and>
   getColorByUrgency ''low'' = ''#808080'' \<and>
   getEmojiByUrgency ''critical'' = [CHR 0xF0, CHR 0x9F, CHR 0x9A, CHR 0xA8] \<and>
   getEmojiByUrgency ''high'' = [CHR 0xE2, CHR 0x9A, CHR 0xA0, CHR 0xEF, CHR 0xB8, CHR 0x8F] \<and>
   getEmojiByUrgency ''normal'' = [CHR 0xF0, CHR 0x9F, CHR 0x92, CHR 0xA1] \<and>
   getEmojiByUrgency ''low'' = [CHR 0xE2, CHR 0x84, CHR 0xB9, CHR 0xEF, CHR 0xB8, CHR 0x8F] \<and>
   (u \<notin> {''critical'', ''high'', ''normal'', ''low''} \<longrightarrow>
      getColorByUrgency u = getColorByUrgency ''normal'' \<and>
      getEmojiByUrgency u = getEmojiByUrgency ''normal'') \<and>
   getSentimentEmoji ''bullish'' =
     [CHR 0xF0, CHR 0x9F, CHR 0x93, CHR 0x88, CHR 0x20, CHR 0xE5, CHR 0xBC, CHR 0xB7,
      CHR 0xE6, CHR 0xB0, CHR 0x97] \<and>
   getSentimentEmoji ''bearish'' =
     [CHR 0xF0, CHR 0x9F, CHR 0x93, CHR 0x89, CHR 0x20, CHR 0xE5, CHR 0xBC, CHR 0xB1,
      CHR 0xE6, CHR 0xB0, CHR 0x97] \<and>
   getSentimentEmoji ''neutral'' =
     [CHR 0xE2, CHR 0x9E, CHR 0xA1, CHR 0xEF, CHR 0xB8, CHR 0x8F, CHR 0x20, CHR 0xE4,
      CHR 0xB8, CHR 0xAD, CHR 0xE7, CHR 0xAB, CHR 0x8B] \<and>
   (s \<notin> {''bullish'', ''bearish'', ''neutral''} \<longrightarrow>
      getSentimentEmoji s =
        [CHR 0xE2, CHR 0x9D, CHR 0x93, CHR 0x20, CHR 0xE4, CHR 0xB8, CHR 0x8D, CHR 0xE6,
         CHR 0x98, CHR 0x8E])"
  by (simp add: getColorByUrgency_def getEmojiByUrgency_def getSentimentEmoji_def)

text \<open>Claim C9, witness: an urgency and a sentiment that are not among the known ones.\<close>

theorem urgency_sentiment_mapping_witness:
  "''urgent'' \<notin> {''critical'', ''high'', ''normal'', ''low''} \<and>
   getColorByUrgency ''urgent'' = ''#36A64F'' \<and>
   getEmojiByUrgency ''urgent'' = [CHR 0xF0, CHR 0x9F, CHR 0x92, CHR 0xA1] \<and>
   ''mixed'' \<notin> {''bullish'', ''bearish'', ''neutral''} \<and>
   getSentimentEmoji ''mixed'' =
     [CHR 0xE2, CHR 0x9D, CHR 0x93, CHR 0x20, CHR 0xE4, CHR 0xB8, CHR 0x8D, CHR 0xE6,
      CHR 0x98, CHR 0x8E]"
  using urgency_sentiment_mapping [of "''urgent''" "''mixed''"] by simp

section \<open>The result of a cycle\<close>

text \<open>
  Claim C10. \<open>Run\<close> returns \<open>nil\<close> whatever the fetches, the scorer, the deliveries and the
  save of the cycle return.
\<close>

theorem run_returns_nil: "snd (Run os c w) = None"
  by (simp add: Run_def split: prod.splits)

end
